theory Spec2Isabelle
  imports Main "HOL-Library.AList" "HOL-Library.List_Lexorder" "HOL-Library.Char_ord"
begin

section \<open>Python values, errors and strings\<close>

text \<open>
  Every exception the module raises, or lets through from a library, is a value of
  \<open>error\<close>; a function that may raise returns \<open>error + 'a\<close> with \<open>Inl\<close> for the
  exception. \<open>CalledProcessError\<close> carries what \<open>subprocess.CalledProcessError\<close> has:
  return code, command, captured standard output and captured standard error.
\<close>

datatype error =
    TypeError string
  | AssertionError string
  | NotImplementedError string
  | IndexError string
  | ValueError string
  | KeyError string
  | SyntaxError string
  | UnicodeDecodeError
  | StopIteration
  | EmptyDataError
  | CalledProcessError int "string list" string string

definition bind_r :: "error + 'a \<Rightarrow> ('a \<Rightarrow> error + 'b) \<Rightarrow> error + 'b" where
  "bind_r m f = (case m of Inl e \<Rightarrow> Inl e | Inr x \<Rightarrow> f x)"

definition sq :: char where
  "sq = CHR 0x27"

definition nl :: char where
  "nl = CHR 0x0A"

text \<open>\<open>str.startswith\<close>, \<open>str.endswith\<close> and \<open>sep.join(parts)\<close>.\<close>

definition startswith :: "string \<Rightarrow> string \<Rightarrow> bool" where
  "startswith s p = (take (length p) s = p)"

definition endswith :: "string \<Rightarrow> string \<Rightarrow> bool" where
  "endswith s suf = (length suf \<le> length s \<and> drop (length s - length suf) s = suf)"

fun join :: "string \<Rightarrow> string list \<Rightarrow> string" where
  "join sep [] = []"
| "join sep [x] = x"
| "join sep (x # y # ys) = x @ sep @ join sep (y # ys)"

text \<open>\<open>str(n)\<close> for an integer: decimal digits, with a minus sign when negative.\<close>

definition digit_char :: "nat \<Rightarrow> char" where
  "digit_char d = ''0123456789'' ! d"

function str_nat :: "nat \<Rightarrow> string" where
  "str_nat n = (if n < 10 then [digit_char n] else str_nat (n div 10) @ [digit_char (n mod 10)])"
  by pat_completeness auto
termination
  by (relation "measure id") auto

declare str_nat.simps [simp del]

definition str_int :: "int \<Rightarrow> string" where
  "str_int i = (if i < 0 then CHR ''-'' # str_nat (nat (- i)) else str_nat (nat i))"

text \<open>
  \<open>repr\<close> of a string: single quotes unless the text has a single quote and no double
  quote; the backslash and the chosen quote are escaped. (Python also escapes control
  and non-printable characters; the strings rendered here, the words of the launcher
  command, have none.)
\<close>

definition repr_str :: "string \<Rightarrow> string" where
  "repr_str s =
     (let q = (if sq \<in> set s \<and> CHR 0x22 \<notin> set s then CHR 0x22 else sq)
      in q # concat (map (\<lambda>c. if c = CHR 0x5C \<or> c = q then [CHR 0x5C, c] else [c]) s) @ [q])"

text \<open>\<open>str\<close> of a list of strings, as the f-string prints the command.\<close>

definition str_list :: "string list \<Rightarrow> string" where
  "str_list xs = ''['' @ join '', '' (map repr_str xs) @ '']''"

text \<open>
  \<open>template.format(*args)\<close> for templates whose replacement fields are the automatic
  \<open>{}\<close>, which is what the three labels of the module are: each \<open>{}\<close> takes the next
  argument, doubled braces are literal braces, arguments left over are ignored, a
  missing argument is an IndexError. Numbered, named and formatted fields do not occur
  in the module's labels; the model reports any other brace as a ValueError.
\<close>

fun str_format :: "string \<Rightarrow> string list \<Rightarrow> error + string" where
  "str_format [] args = Inr []"
| "str_format [c] args =
     (if c = CHR ''{'' \<or> c = CHR ''}'' then Inl (ValueError ''Single brace encountered in format string'')
      else Inr [c])"
| "str_format (c # d # rest) args =
     (if c = CHR ''{'' \<and> d = CHR ''}'' then
        (case args of
           [] \<Rightarrow> Inl (IndexError ''Replacement index out of range for positional args tuple'')
         | a # as \<Rightarrow> map_sum id ((@) a) (str_format rest as))
      else if (c = CHR ''{'' \<and> d = CHR ''{'') \<or> (c = CHR ''}'' \<and> d = CHR ''}'') then
        map_sum id ((#) c) (str_format rest args)
      else if c = CHR ''{'' \<or> c = CHR ''}'' then
        Inl (ValueError ''Single brace encountered in format string'')
      else map_sum id ((#) c) (str_format (d # rest) args))"

section \<open>Rendering the call arguments\<close>

text \<open>
  The values a test is called with. \<open>PyFunction name\<close> is a Python function (what
  \<open>inspect.isfunction\<close> accepts), \<open>PyBuiltin name\<close> a callable that is not one, such as
  \<open>len\<close>. \<open>py_str\<close> is what an f-string field \<open>{v}\<close> produces.
\<close>

datatype pyval = PyInt int | PyStr string | PyFunction string | PyBuiltin string

fun isfunction :: "pyval \<Rightarrow> bool" where
  "isfunction (PyFunction n) = True"
| "isfunction v = False"

fun callable :: "pyval \<Rightarrow> bool" where
  "callable (PyFunction n) = True"
| "callable (PyBuiltin n) = True"
| "callable v = False"

fun py_str :: "pyval \<Rightarrow> string" where
  "py_str (PyInt i) = str_int i"
| "py_str (PyStr s) = s"
| "py_str (PyFunction n) = ''<function '' @ n @ ''>''"
| "py_str (PyBuiltin n) = ''<built-in function '' @ n @ ''>''"

text \<open>The literal representation \<open>repr(v)\<close>, which the specification speaks of.\<close>

fun py_repr :: "pyval \<Rightarrow> string" where
  "py_repr (PyInt i) = str_int i"
| "py_repr (PyStr s) = repr_str s"
| "py_repr (PyFunction n) = ''<function '' @ n @ ''>''"
| "py_repr (PyBuiltin n) = ''<built-in function '' @ n @ ''>''"

fun func_name :: "pyval \<Rightarrow> string" where
  "func_name (PyFunction n) = n"
| "func_name (PyBuiltin n) = n"
| "func_name v = []"

text \<open>The field \<open>{arg if not inspect.isfunction(arg) else arg.__name__}\<close>.\<close>

definition render_arg :: "pyval \<Rightarrow> string" where
  "render_arg v = (if \<not> isfunction v then py_str v else func_name v)"

definition render_kwarg :: "string \<times> pyval \<Rightarrow> string" where
  "render_kwarg kv = fst kv @ ''='' @ render_arg (snd kv)"

text \<open>\<open>_params_as_str\<close>: the two joined parts, joined again where they are not empty.\<close>

definition params_as_str :: "pyval list \<Rightarrow> (string \<times> pyval) list \<Rightarrow> string" where
  "params_as_str args kwargs =
     join '', ''
       (filter (\<lambda>part. part \<noteq> [])
          [join '', '' (map render_arg args), join '', '' (map render_kwarg kwargs)])"

text \<open>The last line of \<open>RUNNER_TEMPLATE\<close>: \<open>{fname}({params})\<close>.\<close>

definition call_text :: "string \<Rightarrow> string \<Rightarrow> string" where
  "call_text fname params = fname @ ''('' @ params @ '')''"

section \<open>Source isolation\<close>

text \<open>
  The syntax tree of a module, as far as \<open>_RemoveDecoratorsAndMPITestImports\<close> looks at
  it. A function definition has a name, its signature (arguments and return annotation,
  kept as text), its decorator list (each decorator kept as text) and its body; a class
  definition likewise, with its bases for signature. \<open>Compound\<close> is any other statement
  that holds blocks of statements (\<open>if\<close>, \<open>for\<close>, \<open>while\<close>, \<open>with\<close>, \<open>try\<close>, \<open>match\<close>):
  its header as text and its blocks in order. \<open>Simple\<close> is any other statement. An
  alias is one imported name with its optional \<open>as\<close> name.
\<close>

datatype py_alias = Alias string "string option"

fun alias_name :: "py_alias \<Rightarrow> string" where
  "alias_name (Alias n a) = n"

datatype stmt =
    FunctionDef string string "string list" "stmt list"
  | AsyncFunctionDef string string "string list" "stmt list"
  | ClassDef string string "string list" "stmt list"
  | Import "py_alias list"
  | ImportFrom "string option" "py_alias list" nat
  | Compound string "stmt list list"
  | Simple string

text \<open>\<open>any(alias.name.startswith("MPITest") for alias in node.names)\<close>\<close>

definition imports_MPITest :: "py_alias list \<Rightarrow> bool" where
  "imports_MPITest names = list_ex (\<lambda>a. startswith (alias_name a) ''MPITest'') names"

text \<open>
  \<open>NodeTransformer.visit\<close>: \<open>None\<close> deletes the node. \<open>visit_FunctionDef\<close> clears the
  decorator list and returns the node without visiting its children; \<open>visit_Import\<close>
  and \<open>visit_ImportFrom\<close> return the node unless a name begins with \<open>MPITest\<close>, and
  fall off the end otherwise; every other node goes through \<open>generic_visit\<close>, which
  visits the statements of each block and drops the deleted ones.
\<close>

fun visit :: "stmt \<Rightarrow> stmt option"
  and visit_stmts :: "stmt list \<Rightarrow> stmt list"
  and visit_blocks :: "stmt list list \<Rightarrow> stmt list list" where
  "visit (FunctionDef name sig decorator_list body) = Some (FunctionDef name sig [] body)"
| "visit (Import names) = (if \<not> imports_MPITest names then Some (Import names) else None)"
| "visit (ImportFrom modname names lvl) =
     (if \<not> imports_MPITest names then Some (ImportFrom modname names lvl) else None)"
| "visit (AsyncFunctionDef name sig decorator_list body) =
     Some (AsyncFunctionDef name sig decorator_list (visit_stmts body))"
| "visit (ClassDef name bases decorator_list body) =
     Some (ClassDef name bases decorator_list (visit_stmts body))"
| "visit (Compound header blocks) = Some (Compound header (visit_blocks blocks))"
| "visit (Simple s) = Some (Simple s)"
| "visit_stmts [] = []"
| "visit_stmts (s # ss) =
     (case visit s of None \<Rightarrow> visit_stmts ss | Some s' \<Rightarrow> s' # visit_stmts ss)"
| "visit_blocks [] = []"
| "visit_blocks (b # bs) = visit_stmts b # visit_blocks bs"

text \<open>The visit of the \<open>Module\<close> node: the generic visit of its body.\<close>

definition visit_Module :: "stmt list \<Rightarrow> stmt list" where
  "visit_Module body = visit_stmts body"

text \<open>
  \<open>_pure_test_func\<close>. Its argument here is the text of the source file of the test
  function, which the method reads whole. \<open>ast.parse\<close> and \<open>ast.unparse\<close> belong to
  the standard library and are parameters: \<open>ast_parse\<close> may raise (a SyntaxError).
\<close>

definition pure_test_func ::
  "(string \<Rightarrow> error + stmt list) \<Rightarrow> (stmt list \<Rightarrow> string) \<Rightarrow> string \<Rightarrow> error + string" where
  "pure_test_func ast_parse ast_unparse source =
     bind_r (ast_parse source) (\<lambda>tree. Inr (ast_unparse (visit_Module tree)))"

text \<open>
  What the transformer looks for, as a predicate: a statement is \<open>isolated\<close> when no
  function definition outside of function bodies has a decorator and no import
  statement outside of function bodies imports a name beginning with \<open>MPITest\<close>.
\<close>

fun isolated :: "stmt \<Rightarrow> bool"
  and isolated_stmts :: "stmt list \<Rightarrow> bool"
  and isolated_blocks :: "stmt list list \<Rightarrow> bool" where
  "isolated (FunctionDef name sig decorator_list body) = (decorator_list = [])"
| "isolated (Import names) = (\<not> imports_MPITest names)"
| "isolated (ImportFrom modname names lvl) = (\<not> imports_MPITest names)"
| "isolated (AsyncFunctionDef name sig decorator_list body) = isolated_stmts body"
| "isolated (ClassDef name bases decorator_list body) = isolated_stmts body"
| "isolated (Compound header blocks) = isolated_blocks blocks"
| "isolated (Simple s) = True"
| "isolated_stmts [] = True"
| "isolated_stmts (s # ss) = (isolated s \<and> isolated_stmts ss)"
| "isolated_blocks [] = True"
| "isolated_blocks (b # bs) = (isolated_stmts b \<and> isolated_blocks bs)"

section \<open>Running the levels\<close>

text \<open>
  The working directory is the list of its files, name and text, in the order in which
  a directory scan yields them. A launch runs a command in the directory and gives the
  exit status and the captured streams of the whole launch, and the directory as the
  workers left it.
\<close>

type_synonym tmpdir = "(string \<times> string) list"

record proc_result =
  returncode :: int
  stdout :: string
  stderr :: string

record env =
  launch :: "string list \<Rightarrow> tmpdir \<Rightarrow> proc_result \<times> tmpdir"
  decode :: "string \<Rightarrow> error + string"

text \<open>
  \<open>launch\<close> is \<open>subprocess.run(command, cwd=tmpdirpath, capture_output=True)\<close> and
  \<open>decode\<close> is \<open>bytes.decode("UTF-8")\<close>, which raises when the bytes are not UTF-8.
\<close>

definition RUNNER :: string where
  "RUNNER = ''runner.py''"

definition command :: "int \<Rightarrow> string list" where
  "command procs = [''mpirun'', ''-np'', str_int procs, ''--oversubscribe'', ''python'', RUNNER]"

text \<open>What the loop has done so far: the commands launched and the lines printed.\<close>

record call_log =
  launched :: "string list list"
  printed :: "string list"

definition rule50 :: string where
  "rule50 = replicate 50 CHR ''-''"

text \<open>
  The \<open>except subprocess.CalledProcessError\<close> block: the diagnostics are printed in
  order, each stream is decoded where it is printed, and the error is raised again.
\<close>

definition report_failure ::
  "env \<Rightarrow> string \<Rightarrow> string list \<Rightarrow> proc_result \<Rightarrow> string list \<times> error" where
  "report_failure e tmpname cmd r =
     (let head = [[nl], rule50, ''Running failed for: '' @ str_list cmd,
                  ''tmpdir            : '' @ tmpname, rule50, ''STDOUT'', rule50]
      in case decode e (stdout r) of
           Inl x \<Rightarrow> (head, x)
         | Inr out \<Rightarrow>
             (case decode e (stderr r) of
                Inl x \<Rightarrow> (head @ [out, rule50, ''STDERR'', rule50], x)
              | Inr err \<Rightarrow>
                  (head @ [out, rule50, ''STDERR'', rule50, err, rule50],
                   CalledProcessError (returncode r) cmd (stdout r) (stderr r))))"

text \<open>
  The loop \<open>for procs in self._procs_lst\<close> of \<open>wrapper\<close>: \<open>check=True\<close> turns a
  non-zero exit status into \<open>CalledProcessError\<close>; \<open>res[procs]\<close> is a dictionary entry.
\<close>

fun run_procs ::
  "env \<Rightarrow> string \<Rightarrow> int list \<Rightarrow> tmpdir \<Rightarrow> (int \<times> proc_result) list \<Rightarrow> call_log
     \<Rightarrow> call_log \<times> (error + tmpdir \<times> (int \<times> proc_result) list)" where
  "run_procs e tmpname [] d res lg = (lg, Inr (d, res))"
| "run_procs e tmpname (procs # rest) d res lg =
     (let cmd = command procs;
          out = launch e cmd d;
          lg' = lg\<lparr>launched := launched lg @ [cmd]\<rparr>
      in if returncode (fst out) = 0
         then run_procs e tmpname rest (snd out) (AList.update procs (fst out) res) lg'
         else (let rep = report_failure e tmpname cmd (fst out)
               in (lg'\<lparr>printed := printed lg' @ fst rep\<rparr>, Inl (snd rep))))"

section \<open>Construction\<close>

text \<open>
  The argument \<open>procs_lst\<close> of the constructor is any Python object: \<open>iter\<close> accepts a
  list and raises TypeError on \<open>None\<close> or a number.
\<close>

datatype pyobj = PyNone | PyNumber int | PyList "int list"

fun py_iter :: "pyobj \<Rightarrow> error + int list" where
  "py_iter (PyList xs) = Inr xs"
| "py_iter PyNone = Inl (TypeError ''NoneType object is not iterable'')"
| "py_iter (PyNumber i) = Inl (TypeError ''int object is not iterable'')"

record 'f mpi_test_wrapper =
  procs_lst :: "int list"
  debug :: bool
  spike :: "(int \<times> 'f list) list option"
  multi :: "(int \<times> 'f list) list option"
  other :: "(int \<times> 'f list) list option"

definition init :: "pyobj \<Rightarrow> bool \<Rightarrow> error + 'f mpi_test_wrapper" where
  "init procs dbg =
     (case py_iter procs of
        Inl e \<Rightarrow> Inl (TypeError ''procs_lst must be a list of numbers'')
      | Inr ps \<Rightarrow> Inr \<lparr>procs_lst = ps, debug = dbg, spike = None, multi = None, other = None\<rparr>)"

section \<open>Collecting the results\<close>

text \<open>
  The module uses pandas as a library. Its five operations are parameters of the
  model, over any type \<open>'f\<close> of data frames: \<open>pd_read_csv\<close> is
  \<open>pd.read_csv(f, sep="\t", comment="#")\<close> on the text of a file,
  \<open>pd_concat\<close> is \<open>pd.concat(frames, ignore_index=True)\<close>, \<open>pd_sort_values by\<close> is
  \<open>frame.sort_values(by=by, ignore_index=True)\<close>, \<open>pd_columns\<close> is \<open>frame.columns\<close>
  as a list, and \<open>pd_assert_frame_equal\<close> is \<open>pd.testing.assert_frame_equal\<close>. Each
  may raise.
\<close>

record 'f pandas =
  pd_read_csv :: "string \<Rightarrow> error + 'f"
  pd_concat :: "'f list \<Rightarrow> error + 'f"
  pd_sort_values :: "string list \<Rightarrow> 'f \<Rightarrow> error + 'f"
  pd_columns :: "'f \<Rightarrow> string list"
  pd_assert_frame_equal :: "'f \<Rightarrow> 'f \<Rightarrow> error + unit"

definition SPIKE_LABEL :: string where
  "SPIKE_LABEL = ''spike-{}''"

definition MULTI_LABEL :: string where
  "MULTI_LABEL = ''multi-{}''"

definition OTHER_LABEL :: string where
  "OTHER_LABEL = ''other-{}-{}.dat''"

text \<open>
  \<open>Path.glob\<close> on the working directory, for patterns whose only wildcard is \<open>*\<close>
  (the patterns made from the three labels and integer levels have no other): \<open>*\<close>
  stands for any run of characters of a file name.
\<close>

fun glob_match :: "string \<Rightarrow> string \<Rightarrow> bool" where
  "glob_match [] s = (s = [])"
| "glob_match (p # ps) [] = (p = CHR ''*'' \<and> glob_match ps [])"
| "glob_match (p # ps) (c # cs) =
     (if p = CHR ''*'' then glob_match ps (c # cs) \<or> glob_match (p # ps) cs
      else p = c \<and> glob_match ps cs)"

definition glob :: "tmpdir \<Rightarrow> string \<Rightarrow> (string \<times> string) list" where
  "glob d pat = filter (\<lambda>f. glob_match pat (fst f)) d"

text \<open>The first lines of \<open>_collect_result_by_label\<close>: the label is completed, or the
  assertion fails.\<close>

definition normalize_label :: "string \<Rightarrow> error + string" where
  "normalize_label label =
     (if \<not> endswith label ''-{}-{}.dat'' then
        (if endswith label ''-{}'' then Inr (label @ ''-{}.dat'') else Inl (AssertionError []))
      else Inr label)"

text \<open>The inner loop over the files of one level: \<open>EmptyDataError\<close> is passed over,
  any other error of \<open>read_csv\<close> goes up.\<close>

fun read_files :: "'f pandas \<Rightarrow> (string \<times> string) list \<Rightarrow> error + 'f list" where
  "read_files pd [] = Inr []"
| "read_files pd (f # fs) =
     (case pd_read_csv pd (snd f) of
        Inl e \<Rightarrow> (if e = EmptyDataError then read_files pd fs else Inl e)
      | Inr df \<Rightarrow> bind_r (read_files pd fs) (\<lambda>data. Inr (df # data)))"

text \<open>The outer loop \<open>for n_procs in self._procs_lst\<close>, with the dictionary \<open>res\<close>.\<close>

fun collect_levels ::
  "'f pandas \<Rightarrow> tmpdir \<Rightarrow> string \<Rightarrow> int list \<Rightarrow> (int \<times> 'f list) list
     \<Rightarrow> error + (int \<times> 'f list) list" where
  "collect_levels pd d label [] res = Inr res"
| "collect_levels pd d label (n_procs # rest) res =
     bind_r (str_format label [str_int n_procs, ''*'']) (\<lambda>pat.
     bind_r (read_files pd (glob d pat)) (\<lambda>data.
     collect_levels pd d label rest (AList.update n_procs data res)))"

definition collect_normalized ::
  "'f pandas \<Rightarrow> tmpdir \<Rightarrow> int list \<Rightarrow> string \<Rightarrow> error + (int \<times> 'f list) list option" where
  "collect_normalized pd d procs label =
     bind_r (str_format label [''*'', ''*'']) (\<lambda>pat.
       if glob d pat = [] then Inr None
       else bind_r (collect_levels pd d label procs []) (\<lambda>res. Inr (Some res)))"

definition collect_result_by_label ::
  "'f pandas \<Rightarrow> tmpdir \<Rightarrow> int list \<Rightarrow> string \<Rightarrow> error + (int \<times> 'f list) list option" where
  "collect_result_by_label pd d procs label =
     bind_r (normalize_label label) (collect_normalized pd d procs)"

definition collect_results ::
  "'f pandas \<Rightarrow> 'f mpi_test_wrapper \<Rightarrow> tmpdir \<Rightarrow> error + 'f mpi_test_wrapper" where
  "collect_results pd w d =
     bind_r (collect_result_by_label pd d (procs_lst w) SPIKE_LABEL) (\<lambda>s.
     bind_r (collect_result_by_label pd d (procs_lst w) MULTI_LABEL) (\<lambda>m.
     bind_r (collect_result_by_label pd d (procs_lst w) OTHER_LABEL) (\<lambda>ot.
     Inr (w\<lparr>spike := s, multi := m, other := ot\<rparr>))))"

section \<open>Comparing the results\<close>

text \<open>The truth value of \<open>self._spike\<close>: neither \<open>None\<close> nor an empty dictionary;
  and \<open>.values()\<close>.\<close>

definition truthy :: "(int \<times> 'f list) list option \<Rightarrow> bool" where
  "truthy r = (case r of None \<Rightarrow> False | Some dict \<Rightarrow> dict \<noteq> [])"

definition dict_values :: "(int \<times> 'f list) list option \<Rightarrow> 'f list list" where
  "dict_values r = (case r of None \<Rightarrow> [] | Some dict \<Rightarrow> map snd dict)"

definition spike_keys :: "string list" where
  "spike_keys = [''time_step'', ''time_offset'', ''sender'']"

text \<open>\<open>pd.concat(frames, ignore_index=True).sort_values(by=by, ignore_index=True)\<close>,
  and the list comprehension that does it for the frames of each level in turn.\<close>

definition combine :: "'f pandas \<Rightarrow> string list \<Rightarrow> 'f list \<Rightarrow> error + 'f" where
  "combine pd by frames = bind_r (pd_concat pd frames) (pd_sort_values pd by)"

fun combine_all :: "'f pandas \<Rightarrow> string list \<Rightarrow> 'f list list \<Rightarrow> error + 'f list" where
  "combine_all pd by [] = Inr []"
| "combine_all pd by (frames # rest) =
     bind_r (combine pd by frames) (\<lambda>c.
     bind_r (combine_all pd by rest) (\<lambda>cs. Inr (c # cs)))"

text \<open>\<open>list(next(iter(self._other.values()))[0].columns)\<close>\<close>

definition first_columns :: "'f pandas \<Rightarrow> 'f list list \<Rightarrow> error + string list" where
  "first_columns pd vals =
     (case vals of
        [] \<Rightarrow> Inl StopIteration
      | frames # _ \<Rightarrow>
          (case frames of
             [] \<Rightarrow> Inl (IndexError ''list index out of range'')
           | df # _ \<Rightarrow> Inr (pd_columns pd df)))"

text \<open>\<open>for r in res[1:]: pd.testing.assert_frame_equal(res[0], r)\<close>\<close>

fun assert_all_equal :: "'f pandas \<Rightarrow> 'f \<Rightarrow> 'f list \<Rightarrow> error + unit" where
  "assert_all_equal pd r0 [] = Inr ()"
| "assert_all_equal pd r0 (r # rs) =
     bind_r (pd_assert_frame_equal pd r0 r) (\<lambda>u. assert_all_equal pd r0 rs)"

definition check_res :: "'f pandas \<Rightarrow> nat \<Rightarrow> 'f list \<Rightarrow> error + unit" where
  "check_res pd n_levels res =
     (if length res \<noteq> n_levels then Inl (AssertionError ''Could not collect data for all procs'')
      else (case res of [] \<Rightarrow> Inr () | r0 # rs \<Rightarrow> assert_all_equal pd r0 rs))"

fun check_all :: "'f pandas \<Rightarrow> nat \<Rightarrow> 'f list list \<Rightarrow> error + unit" where
  "check_all pd n_levels [] = Inr ()"
| "check_all pd n_levels (res # rest) =
     bind_r (check_res pd n_levels res) (\<lambda>u. check_all pd n_levels rest)"

text \<open>The body of \<open>MPITestAssertEqual.assert_correct_results\<close> after the collection.\<close>

definition compare_collected :: "'f pandas \<Rightarrow> 'f mpi_test_wrapper \<Rightarrow> error + unit" where
  "compare_collected pd w =
     bind_r (if truthy (spike w)
             then bind_r (combine_all pd spike_keys (dict_values (spike w))) (\<lambda>res. Inr [res])
             else Inr []) (\<lambda>all_res.
     if truthy (multi w) then Inl (NotImplementedError ''MULTI is not ready yet'')
     else
       bind_r (if truthy (other w)
               then bind_r (first_columns pd (dict_values (other w))) (\<lambda>all_columns.
                    bind_r (combine_all pd all_columns (dict_values (other w))) (\<lambda>res.
                    Inr (all_res @ [res])))
               else Inr all_res) (\<lambda>all_res.
       if all_res = [] then Inl (AssertionError ''No test data collected'')
       else check_all pd (length (procs_lst w)) all_res))"

text \<open>\<open>assert_correct_results\<close> of \<open>MPITestAssertEqual\<close>, of the base class and of
  \<open>MPITestAssertCompletes\<close>.\<close>

definition assert_correct_results ::
  "'f pandas \<Rightarrow> 'f mpi_test_wrapper \<Rightarrow> tmpdir \<Rightarrow> error + unit" where
  "assert_correct_results pd w d = bind_r (collect_results pd w d) (compare_collected pd)"

definition assert_correct_results_base :: "'f mpi_test_wrapper \<Rightarrow> tmpdir \<Rightarrow> error + unit" where
  "assert_correct_results_base w d = Inl (AssertionError ''Test-specific checks not implemented'')"

definition assert_correct_results_completes :: "'f mpi_test_wrapper \<Rightarrow> tmpdir \<Rightarrow> error + unit" where
  "assert_correct_results_completes w d = Inr ()"

section \<open>A small instance of the pandas operations\<close>

text \<open>
  For running the harness on concrete directories: a frame is its column names and its
  rows of text cells. Reading splits the text into lines, cuts each line at \<open>#\<close>, drops
  the lines left empty, and fails with \<open>EmptyDataError\<close> when none is left, as pandas
  does when there are no columns to parse; the first line is the header. Concatenating
  no frames is pandas' \<open>ValueError\<close>; the frames of one kind have the same columns, and
  their rows are appended in order. Sorting by a column that does not exist is a
  \<open>KeyError\<close>. Cells stay text and are compared as text.
\<close>

type_synonym table = "string list \<times> string list list"

fun split_on :: "char \<Rightarrow> string \<Rightarrow> string list" where
  "split_on c [] = [[]]"
| "split_on c (x # xs) =
     (if x = c then [] # split_on c xs
      else (case split_on c xs of [] \<Rightarrow> [[x]] | w # ws \<Rightarrow> (x # w) # ws))"

definition tab :: char where
  "tab = CHR 0x09"

definition table_read_csv :: "string \<Rightarrow> error + table" where
  "table_read_csv txt =
     (case filter (\<lambda>l. l \<noteq> []) (map (takeWhile (\<lambda>c. c \<noteq> CHR ''#'')) (split_on nl txt)) of
        [] \<Rightarrow> Inl EmptyDataError
      | header # rows \<Rightarrow> Inr (split_on tab header, map (split_on tab) rows))"

definition table_concat :: "table list \<Rightarrow> error + table" where
  "table_concat frames =
     (case frames of
        [] \<Rightarrow> Inl (ValueError ''No objects to concatenate'')
      | df # _ \<Rightarrow> Inr (fst df, concat (map snd frames)))"

definition cell :: "string list \<Rightarrow> string list \<Rightarrow> string \<Rightarrow> string" where
  "cell cols row k = (case map_of (zip cols row) k of None \<Rightarrow> [] | Some v \<Rightarrow> v)"

definition table_sort_values :: "string list \<Rightarrow> table \<Rightarrow> error + table" where
  "table_sort_values by df =
     (case filter (\<lambda>k. k \<notin> set (fst df)) by of
        [] \<Rightarrow> Inr (fst df, sort_key (\<lambda>row. map (cell (fst df) row) by) (snd df))
      | k # _ \<Rightarrow> Inl (KeyError k))"

definition table_assert_frame_equal :: "table \<Rightarrow> table \<Rightarrow> error + unit" where
  "table_assert_frame_equal a b =
     (if a = b then Inr () else Inl (AssertionError ''DataFrame are different''))"

definition table_pd :: "table pandas" where
  "table_pd = \<lparr>pd_read_csv = table_read_csv, pd_concat = table_concat,
               pd_sort_values = table_sort_values, pd_columns = fst,
               pd_assert_frame_equal = table_assert_frame_equal\<rparr>"

section \<open>The frames of a level and the agreement of levels\<close>

text \<open>The frames of the files that parse, in the order of the files: what the list of a
  level is to hold.\<close>

definition frames_of :: "'f pandas \<Rightarrow> (string \<times> string) list \<Rightarrow> 'f list" where
  "frames_of pd files =
     concat (map (\<lambda>f. case pd_read_csv pd (snd f) of Inl e \<Rightarrow> [] | Inr df \<Rightarrow> [df]) files)"

text \<open>
  The condition the comparator is to check for one kind, given the frames of each
  level in the order of the levels: the frames of the first level combine to one sorted
  frame, and the frames of every other level combine to a sorted frame that
  \<open>assert_frame_equal\<close> accepts against the first.
\<close>

definition levels_agree :: "'f pandas \<Rightarrow> string list \<Rightarrow> 'f list list \<Rightarrow> bool" where
  "levels_agree pd by levels =
     (case levels of
        [] \<Rightarrow> True
      | first # others \<Rightarrow>
          (case combine pd by first of
             Inl e \<Rightarrow> False
           | Inr c0 \<Rightarrow>
               list_all (\<lambda>frames. case combine pd by frames of
                                     Inl e \<Rightarrow> False
                                   | Inr c \<Rightarrow> pd_assert_frame_equal pd c0 c = Inr ()) others))"

section \<open>Examples to evaluate\<close>

text \<open>A launcher whose run with two workers exits with status 1, and whose other runs
  succeed and leave a spike file behind; the streams decode as they are.\<close>

definition env_fail2 :: env where
  "env_fail2 =
     \<lparr>launch = (\<lambda>cmd d. if cmd ! 2 = ''2''
                         then (\<lparr>returncode = 1, stdout = ''out'', stderr = ''err''\<rparr>, d)
                         else (\<lparr>returncode = 0, stdout = [], stderr = []\<rparr>,
                               d @ [(''spike-'' @ cmd ! 2 @ ''-0.dat'', [])])),
      decode = Inr\<rparr>"

text \<open>A test file with one decorated test function, its syntax tree, the tree and the
  text after isolation, and the standard library's parser and printer on these.\<close>

definition example_source :: string where
  "example_source = ''@MPITestAssertEqual([1, 2])'' @ [nl] @ ''def test_func():'' @ [nl] @ ''    pass''"

definition example_output :: string where
  "example_output = ''def test_func():'' @ [nl] @ ''    pass''"

definition example_tree :: "stmt list" where
  "example_tree = [FunctionDef ''test_func'' ''()'' [''MPITestAssertEqual([1, 2])''] [Simple ''pass'']]"

definition example_isolated :: "stmt list" where
  "example_isolated = [FunctionDef ''test_func'' ''()'' [] [Simple ''pass'']]"

definition example_parse :: "string \<Rightarrow> error + stmt list" where
  "example_parse src =
     (if src = example_source then Inr example_tree
      else if src = example_output then Inr example_isolated
      else Inl (SyntaxError ''invalid syntax''))"

definition example_unparse :: "stmt list \<Rightarrow> string" where
  "example_unparse tree =
     (if tree = example_tree then example_source
      else if tree = example_isolated then example_output
      else [])"

text \<open>Working directories after runs with one and two processes, with the spike files as
  tab-separated text, and the harness object for these two levels.\<close>

definition tsv :: "string list list \<Rightarrow> string" where
  "tsv rows = concat (map (\<lambda>cells. join [tab] cells @ [nl]) rows)"

definition spike_header :: "string list" where
  "spike_header = [''sender'', ''time_step'', ''time_offset'']"

definition wrapper_1_2 :: "table mpi_test_wrapper" where
  "wrapper_1_2 = \<lparr>procs_lst = [1, 2], debug = False, spike = None, multi = None, other = None\<rparr>"

definition dir_two_levels :: tmpdir where
  "dir_two_levels =
     [(''runner.py'', ''pass''),
      (''spike-1-0.dat'',
         tsv [spike_header, [''5'', ''10'', ''0''], [''6'', ''10'', ''0''], [''5'', ''20'', ''0'']]),
      (''spike-2-1.dat'', tsv [spike_header, [''5'', ''20'', ''0''], [''5'', ''10'', ''0'']]),
      (''spike-2-0.dat'', tsv [spike_header, [''6'', ''10'', ''0'']])]"

definition collected_two_levels :: "table mpi_test_wrapper" where
  "collected_two_levels =
     \<lparr>procs_lst = [1, 2], debug = False,
      spike = Some [(1, [(spike_header, [[''5'', ''10'', ''0''], [''6'', ''10'', ''0''], [''5'', ''20'', ''0'']])]),
                    (2, [(spike_header, [[''5'', ''20'', ''0''], [''5'', ''10'', ''0'']]),
                         (spike_header, [[''6'', ''10'', ''0'']])])],
      multi = None, other = None\<rparr>"

definition dir_mismatch :: tmpdir where
  "dir_mismatch =
     [(''spike-1-0.dat'', tsv [spike_header, [''5'', ''0'', ''0'']]),
      (''spike-2-0.dat'', tsv [spike_header, [''6'', ''0'', ''0'']])]"

definition dir_level_2_empty :: tmpdir where
  "dir_level_2_empty =
     [(''runner.py'', ''pass''),
      (''spike-1-0.dat'', tsv [spike_header, [''5'', ''10'', ''0'']]),
      (''spike-2-0.dat'', [])]"

definition multi_header :: "string list" where
  "multi_header = [''sender'', ''time_ms'', ''V_m'']"

definition dir_multi_only :: tmpdir where
  "dir_multi_only =
     [(''multi-1-0.dat'', tsv [multi_header, [''1'', ''1.0'', ''-70.0'']]),
      (''multi-2-0.dat'', tsv [multi_header, [''1'', ''1.0'', ''-70.0'']])]"

definition dir_headers_only :: tmpdir where
  "dir_headers_only =
     [(''spike-1-0.dat'', tsv [spike_header]), (''spike-2-0.dat'', tsv [spike_header])]"

section \<open>Properties of the argument rendering\<close>

lemma join_Cons_nonempty: "ys \<noteq> [] \<Longrightarrow> join sep (x # ys) = x @ sep @ join sep ys"
  by (cases ys) simp_all

lemma join_append:
  "xs \<noteq> [] \<Longrightarrow> ys \<noteq> [] \<Longrightarrow> join sep (xs @ ys) = join sep xs @ sep @ join sep ys"
proof (induction xs)
  case Nil
  then show ?case by simp
next
  case (Cons x xs)
  show ?case
  proof (cases "xs = []")
    case True
    with Cons.prems show ?thesis by (simp add: join_Cons_nonempty)
  next
    case False
    with Cons show ?thesis by (simp add: join_Cons_nonempty)
  qed
qed

lemma join_nonempty:
  assumes "xs \<noteq> []" and "\<forall>x\<in>set xs. x \<noteq> []"
  shows "join sep xs \<noteq> []"
proof (cases xs)
  case Nil
  with assms show ?thesis by simp
next
  case (Cons x ys)
  with assms show ?thesis by (cases ys) auto
qed

lemma render_kwarg_nonempty: "render_kwarg kv \<noteq> []"
  by (simp add: render_kwarg_def)

lemma str_int_3: "str_int 3 = ''3''"
  by (simp add: str_int_def str_nat.simps digit_char_def)

lemma str_int_4: "str_int 4 = ''4''"
  by (simp add: str_int_def str_nat.simps digit_char_def)

text \<open>
  The shape of the rendered text: the positional arguments in order, then the
  \<open>key=value\<close> pairs in order, separated by a comma and a space (when no positional
  argument renders as the empty text). The f-string of \<open>_params_as_str\<close> takes the
  name of an argument that \<open>inspect.isfunction\<close> accepts and formats every other
  argument with \<open>str\<close>; for an integer that is its literal.
\<close>

theorem params_as_str_rendering:
  "((\<forall>a\<in>set args. render_arg a \<noteq> []) \<longrightarrow>
      params_as_str args kwargs = join '', '' (map render_arg args @ map render_kwarg kwargs))
   \<and> render_kwarg (k, v) = k @ ''='' @ render_arg v
   \<and> (isfunction v \<longrightarrow> render_arg v = func_name v)
   \<and> (\<not> isfunction v \<longrightarrow> render_arg v = py_str v)
   \<and> render_arg (PyInt i) = py_repr (PyInt i)"
proof -
  have main: "params_as_str args kwargs = join '', '' (map render_arg args @ map render_kwarg kwargs)"
    if h: "\<forall>a\<in>set args. render_arg a \<noteq> []"
  proof -
    let ?A = "map render_arg args" and ?B = "map render_kwarg kwargs"
    have B: "join '', '' ?B \<noteq> []" if "kwargs \<noteq> []"
      using that by (intro join_nonempty) (auto simp: render_kwarg_nonempty)
    have A: "join '', '' ?A \<noteq> []" if "args \<noteq> []"
      using that h by (intro join_nonempty) auto
    show ?thesis
    proof (cases "args = []")
      case True
      then show ?thesis using B by (cases "kwargs = []") (simp_all add: params_as_str_def)
    next
      case False
      note na = this
      show ?thesis
      proof (cases "kwargs = []")
        case True
        then show ?thesis using A[OF na] by (simp add: params_as_str_def)
      next
        case False
        then show ?thesis using A[OF na] B[OF False] na
          by (simp add: params_as_str_def join_append)
      qed
    qed
  qed
  show ?thesis using main by (simp add: render_kwarg_def render_arg_def)
qed

theorem params_as_str_rendering_witness:
  "call_text ''f'' (params_as_str [PyInt 3] [(''key'', PyInt 4)]) = ''f(3, key=4)''
   \<and> params_as_str [PyFunction ''myfunc''] [] = ''myfunc''"
proof -
  have a: "\<forall>a\<in>set [PyInt 3]. render_arg a \<noteq> []"
    by (simp add: render_arg_def str_int_3)
  have b: "\<forall>a\<in>set [PyFunction ''myfunc'']. render_arg a \<noteq> []"
    by (simp add: render_arg_def)
  from params_as_str_rendering[of "[PyInt 3]" "[(''key'', PyInt 4)]" "''key''" "PyInt 4" 4] a
    params_as_str_rendering[of "[PyFunction ''myfunc'']" "[]" "''key''" "PyFunction ''myfunc''" 4] b
  show ?thesis
    by (simp add: call_text_def render_arg_def render_kwarg_def str_int_3 str_int_4)
qed

text \<open>
  C4. The rendered text is written into the runner as the arguments of the call, so
  it has to be source for the same call: a non-callable argument as its literal, a
  callable argument as its name. The code departs from this at two inputs. The string
  \<open>'ab'\<close>, which is not callable and whose literal is \<open>'ab'\<close> with its quotes, is
  rendered as the bare text, so the runner calls \<open>f(ab)\<close>. The builtin \<open>len\<close>, which
  is callable and named \<open>len\<close>, is not a function for \<open>inspect.isfunction\<close> and is
  rendered as \<open>str\<close> gives it, so the runner calls \<open>f(<built-in function len>)\<close>.
\<close>

theorem params_as_str_not_literal:
  "\<not> callable (PyStr ''ab'')
   \<and> py_repr (PyStr ''ab'') = [sq, CHR ''a'', CHR ''b'', sq]
   \<and> params_as_str [PyStr ''ab''] [] = ''ab''
   \<and> call_text ''f'' (params_as_str [PyStr ''ab''] []) = ''f(ab)''
   \<and> callable (PyBuiltin ''len'')
   \<and> func_name (PyBuiltin ''len'') = ''len''
   \<and> params_as_str [PyBuiltin ''len''] [] = ''<built-in function len>''
   \<and> call_text ''f'' (params_as_str [PyBuiltin ''len''] []) = ''f(<built-in function len>)''
   \<and> params_as_str [] [(''key'', PyStr ''ab'')] = ''key=ab''"
  by (simp add: params_as_str_def render_arg_def render_kwarg_def call_text_def
      repr_str_def sq_def Let_def)

section \<open>Properties of the construction\<close>

text \<open>
  C7, as the code has it. An argument that \<open>iter\<close> rejects is reported at construction
  as a TypeError, before anything else happens; every list, the empty one too, is
  accepted and stored.
\<close>

theorem init_checks_iterable:
  "init PyNone dbg = Inl (TypeError ''procs_lst must be a list of numbers'')
   \<and> init (PyNumber i) dbg = Inl (TypeError ''procs_lst must be a list of numbers'')
   \<and> init (PyList ps) dbg =
       Inr \<lparr>procs_lst = ps, debug = dbg, spike = None, multi = None, other = None\<rparr>"
  by (simp add: init_def)

text \<open>C7 as stated fails on the empty list: the construction succeeds.\<close>

theorem init_accepts_empty_list:
  "(init (PyList []) False :: error + table mpi_test_wrapper) =
     Inr \<lparr>procs_lst = [], debug = False, spike = None, multi = None, other = None\<rparr>"
  by (simp add: init_def)

section \<open>Properties of the source isolation\<close>

lemma visit_isolated:
  "(\<forall>s'. visit s = Some s' \<longrightarrow> isolated s')"
  "isolated_stmts (visit_stmts ss)"
  "isolated_blocks (visit_blocks bs)"
  by (induction s and ss and bs rule: visit_visit_stmts_visit_blocks.induct)
     (auto split: option.splits)

lemma isolated_fixed:
  "(isolated s \<longrightarrow> visit s = Some s)"
  "(isolated_stmts ss \<longrightarrow> visit_stmts ss = ss)"
  "(isolated_blocks bs \<longrightarrow> visit_blocks bs = bs)"
  by (induction s and ss and bs rule: visit_visit_stmts_visit_blocks.induct)
     (auto split: option.splits)

lemma visit_stmts_map_filter: "visit_stmts ss = List.map_filter visit ss"
  by (induction ss) (auto simp: List.map_filter_simps split: option.splits)

text \<open>
  C2, as the code has it. The transformer works on the whole module. A function
  definition (\<open>def\<close>) it visits loses its decorators and keeps its name, signature and
  body as they are, nested definitions and imports in the body included; an import
  statement it visits is deleted when one of its names begins with \<open>MPITest\<close>; a
  statement that is already isolated is returned as it is; the statements of the module
  are treated one by one, in order; and in the result no function definition outside of
  function bodies has a decorator and no import outside of function bodies names
  \<open>MPITest\<close>.
\<close>

theorem visit_Module_effect:
  "visit (FunctionDef name sig decorator_list body) = Some (FunctionDef name sig [] body)
   \<and> (imports_MPITest names \<longrightarrow>
        visit (Import names) = None \<and> visit (ImportFrom modname names lvl) = None)
   \<and> (isolated s \<longrightarrow> visit s = Some s)
   \<and> visit_Module m = List.map_filter visit m
   \<and> isolated_stmts (visit_Module m)"
  using isolated_fixed(1)[of s] visit_isolated(2)[of m]
  by (simp add: visit_Module_def visit_stmts_map_filter)

theorem visit_Module_effect_witness:
  "visit_Module
     [ImportFrom (Some ''mpi_test_wrapper'') [Alias ''MPITestAssertEqual'' None] 0,
      Import [Alias ''os'' None],
      FunctionDef ''test_func'' ''()'' [''MPITestAssertEqual([1, 2])'']
        [Import [Alias ''nest'' None],
         FunctionDef ''inner'' ''()'' [''functools.cache''] [Simple ''pass''],
         Simple ''inner()'']]
   = [Import [Alias ''os'' None],
      FunctionDef ''test_func'' ''()'' []
        [Import [Alias ''nest'' None],
         FunctionDef ''inner'' ''()'' [''functools.cache''] [Simple ''pass''],
         Simple ''inner()'']]
   \<and> visit (Import [Alias ''os'' None]) = Some (Import [Alias ''os'' None])"
proof -
  have a: "imports_MPITest [Alias ''MPITestAssertEqual'' None]"
    by (simp add: imports_MPITest_def startswith_def)
  have b: "isolated (Import [Alias ''os'' None])"
    by (simp add: imports_MPITest_def startswith_def)
  from visit_Module_effect[where name = "''test_func''" and sig = "''()''"
      and decorator_list = "[''MPITestAssertEqual([1, 2])'']"
      and body = "[Import [Alias ''nest'' None],
         FunctionDef ''inner'' ''()'' [''functools.cache''] [Simple ''pass''],
         Simple ''inner()'']"
      and names = "[Alias ''MPITestAssertEqual'' None]" and modname = "Some ''mpi_test_wrapper''"
      and lvl = 0 and s = "Import [Alias ''os'' None]"
      and m = "[ImportFrom (Some ''mpi_test_wrapper'') [Alias ''MPITestAssertEqual'' None] 0,
      Import [Alias ''os'' None],
      FunctionDef ''test_func'' ''()'' [''MPITestAssertEqual([1, 2])'']
        [Import [Alias ''nest'' None],
         FunctionDef ''inner'' ''()'' [''functools.cache''] [Simple ''pass''],
         Simple ''inner()'']]"] a b
  show ?thesis
    by (simp add: List.map_filter_simps)
qed

text \<open>
  C2 as stated fails: the decorators of a second function of the module, and of a
  method of a class of the module, are stripped as well, so statements other than the
  test function's own definition are modified.
\<close>

theorem visit_Module_strips_other_functions:
  "visit_Module
     [FunctionDef ''helper'' ''()'' [''functools.cache''] [Simple ''return 1''],
      FunctionDef ''test_func'' ''()'' [''MPITestAssertEqual([1, 2])''] [Simple ''pass'']]
   = [FunctionDef ''helper'' ''()'' [] [Simple ''return 1''],
      FunctionDef ''test_func'' ''()'' [] [Simple ''pass'']]
   \<and> visit_Module
     [ClassDef ''Helper'' [] [] [FunctionDef ''size'' ''(self)'' [''property''] [Simple ''return 1'']],
      FunctionDef ''test_func'' ''()'' [''MPITestAssertEqual([1, 2])''] [Simple ''pass'']]
   = [ClassDef ''Helper'' [] [] [FunctionDef ''size'' ''(self)'' [] [Simple ''return 1'']],
      FunctionDef ''test_func'' ''()'' [] [Simple ''pass'']]"
  by (simp add: visit_Module_def)

text \<open>
  C8. Where the source parses and the standard library's parser reads the printed output
  back as the tree it was printed from, isolating the output of an isolation gives that
  same output again. A source that is isolated already, with no decorator and no
  \<open>MPITest\<close> import for the transformer to find, keeps its tree.
\<close>

theorem pure_test_func_idempotent:
  assumes "ast_parse source = Inr tree"
      and "ast_parse (ast_unparse (visit_Module tree)) = Inr (visit_Module tree)"
  shows "pure_test_func ast_parse ast_unparse source = Inr (ast_unparse (visit_Module tree))
         \<and> pure_test_func ast_parse ast_unparse (ast_unparse (visit_Module tree))
             = Inr (ast_unparse (visit_Module tree))
         \<and> (isolated_stmts tree \<longrightarrow> visit_Module tree = tree)"
proof -
  have idem: "visit_Module (visit_Module tree) = visit_Module tree"
    by (simp add: visit_Module_def visit_isolated(2) isolated_fixed(2))
  show ?thesis
    using assms idem isolated_fixed(2)[of tree]
    by (simp add: pure_test_func_def bind_r_def visit_Module_def)
qed

lemma example_texts_differ: "example_output \<noteq> example_source"
  by (simp add: example_source_def example_output_def)

lemma example_trees_differ: "example_isolated \<noteq> example_tree"
  by (simp add: example_tree_def example_isolated_def)

lemma visit_example_tree: "visit_Module example_tree = example_isolated"
  by (simp add: example_tree_def example_isolated_def visit_Module_def)

lemma visit_example_isolated: "visit_Module example_isolated = example_isolated"
  by (simp add: example_isolated_def visit_Module_def)

theorem pure_test_func_idempotent_witness:
  "pure_test_func example_parse example_unparse example_source = Inr example_output
   \<and> pure_test_func example_parse example_unparse example_output = Inr example_output
   \<and> visit_Module example_isolated = example_isolated"
proof -
  have p: "example_parse example_source = Inr example_tree"
    by (simp add: example_parse_def)
  have u: "example_unparse example_isolated = example_output"
    by (simp add: example_unparse_def example_trees_differ)
  have r: "example_parse (example_unparse (visit_Module example_tree)) = Inr (visit_Module example_tree)"
    by (simp add: u visit_example_tree example_parse_def example_texts_differ)
  from pure_test_func_idempotent[of example_parse example_source example_tree example_unparse, OF p r]
    u visit_example_tree visit_example_isolated show ?thesis
    by simp
qed

section \<open>Properties of the run loop\<close>

lemma run_procs_append:
  "run_procs e t pre d res lg = (lg1, Inr (d1, res1)) \<Longrightarrow>
   run_procs e t (pre @ post) d res lg = run_procs e t post d1 res1 lg1"
  by (induction pre arbitrary: d res lg) (auto simp: Let_def split: if_splits)

lemma run_procs_ok_log:
  "run_procs e t pre d res lg = (lg1, Inr (d1, res1)) \<Longrightarrow>
   launched lg1 = launched lg @ map command pre \<and> printed lg1 = printed lg"
proof (induction pre arbitrary: d res lg)
  case Nil
  then show ?case by simp
next
  case (Cons p pre)
  from Cons.prems have ok: "returncode (fst (launch e (command p) d)) = 0"
    by (auto simp: Let_def split: if_splits)
  with Cons.prems have
    "run_procs e t pre (snd (launch e (command p) d))
       (AList.update p (fst (launch e (command p) d)) res)
       (lg\<lparr>launched := launched lg @ [command p]\<rparr>) = (lg1, Inr (d1, res1))"
    by (simp add: Let_def)
  from Cons.IH[OF this] show ?case by simp
qed

lemma report_failure_decoded:
  "decode e (stdout r) = Inr so \<Longrightarrow> decode e (stderr r) = Inr se \<Longrightarrow>
   report_failure e t cmd r =
     ([[nl], rule50, ''Running failed for: '' @ str_list cmd, ''tmpdir            : '' @ t,
       rule50, ''STDOUT'', rule50, so, rule50, ''STDERR'', rule50, se, rule50],
      CalledProcessError (returncode r) cmd (stdout r) (stderr r))"
  by (simp add: report_failure_def)

text \<open>
  C3, as the code has it. When the levels before \<open>n\<close> have run and exited with status
  0 and the launch at level \<open>n\<close> exits with another status, the commands launched are
  those of the levels up to \<open>n\<close> and no other, so no later level is attempted, and an
  error is raised. The command names the level. Where the two captured streams decode
  as UTF-8, the error raised is the launcher's \<open>CalledProcessError\<close> with the exit
  status, the failed command and the two captured streams; the path of the working
  directory is not in the error: it is printed with the other diagnostics before the
  error is raised again.
\<close>

theorem run_procs_fail_fast:
  assumes pre: "run_procs e tmpname pre d res lg = (lg1, Inr (d1, res1))"
      and fail: "returncode (fst (launch e (command n) d1)) \<noteq> 0"
  shows "launched (fst (run_procs e tmpname (pre @ n # post) d res lg))
           = launched lg @ map command (pre @ [n])
         \<and> (\<exists>x. snd (run_procs e tmpname (pre @ n # post) d res lg) = Inl x)
         \<and> command n ! 2 = str_int n
         \<and> (\<forall>so se. decode e (stdout (fst (launch e (command n) d1))) = Inr so
               \<and> decode e (stderr (fst (launch e (command n) d1))) = Inr se \<longrightarrow>
             snd (run_procs e tmpname (pre @ n # post) d res lg)
               = Inl (CalledProcessError (returncode (fst (launch e (command n) d1))) (command n)
                        (stdout (fst (launch e (command n) d1)))
                        (stderr (fst (launch e (command n) d1))))
             \<and> printed (fst (run_procs e tmpname (pre @ n # post) d res lg))
               = printed lg @
                 [[nl], rule50, ''Running failed for: '' @ str_list (command n),
                  ''tmpdir            : '' @ tmpname, rule50, ''STDOUT'', rule50, so, rule50,
                  ''STDERR'', rule50, se, rule50])"
proof -
  let ?r = "fst (launch e (command n) d1)"
  have step: "run_procs e tmpname (pre @ n # post) d res lg
      = run_procs e tmpname (n # post) d1 res1 lg1"
    using run_procs_append[OF pre] by simp
  have lg1: "launched lg1 = launched lg @ map command pre" "printed lg1 = printed lg"
    using run_procs_ok_log[OF pre] by simp_all
  have val: "run_procs e tmpname (n # post) d1 res1 lg1
      = (lg1\<lparr>launched := launched lg1 @ [command n],
              printed := printed lg1 @ fst (report_failure e tmpname (command n) ?r)\<rparr>,
         Inl (snd (report_failure e tmpname (command n) ?r)))"
    using fail by (simp add: Let_def)
  have c1: "launched (fst (run_procs e tmpname (pre @ n # post) d res lg))
           = launched lg @ map command (pre @ [n])"
    unfolding step val by (simp add: lg1)
  have c2: "\<exists>x. snd (run_procs e tmpname (pre @ n # post) d res lg) = Inl x"
    unfolding step val by simp
  have c3: "command n ! 2 = str_int n"
    by (simp add: command_def)
  have c4: "snd (run_procs e tmpname (pre @ n # post) d res lg)
               = Inl (CalledProcessError (returncode ?r) (command n) (stdout ?r) (stderr ?r))
             \<and> printed (fst (run_procs e tmpname (pre @ n # post) d res lg))
               = printed lg @
                 [[nl], rule50, ''Running failed for: '' @ str_list (command n),
                  ''tmpdir            : '' @ tmpname, rule50, ''STDOUT'', rule50, so, rule50,
                  ''STDERR'', rule50, se, rule50]"
    if "decode e (stdout ?r) = Inr so" "decode e (stderr ?r) = Inr se" for so se
    unfolding step val using that by (simp add: lg1 report_failure_decoded)
  show ?thesis using c1 c2 c3 c4 by blast
qed

lemma command_1:
  "command 1 = [''mpirun'', ''-np'', ''1'', ''--oversubscribe'', ''python'', ''runner.py'']"
  by (simp add: command_def RUNNER_def str_int_def str_nat.simps digit_char_def)

lemma command_2:
  "command 2 = [''mpirun'', ''-np'', ''2'', ''--oversubscribe'', ''python'', ''runner.py'']"
  by (simp add: command_def RUNNER_def str_int_def str_nat.simps digit_char_def)

lemma env_fail2_level_1:
  "run_procs env_fail2 ''/tmp/a'' [1] [] [] \<lparr>launched = [], printed = []\<rparr>
   = (\<lparr>launched = [command 1], printed = []\<rparr>,
      Inr ([(''spike-1-0.dat'', [])], [(1, \<lparr>returncode = 0, stdout = [], stderr = []\<rparr>)]))"
  by (simp add: env_fail2_def command_1 Let_def)

theorem run_procs_fail_fast_witness:
  "launched (fst (run_procs env_fail2 ''/tmp/a'' [1, 2, 4] [] [] \<lparr>launched = [], printed = []\<rparr>))
     = [command 1, command 2]
   \<and> snd (run_procs env_fail2 ''/tmp/a'' [1, 2, 4] [] [] \<lparr>launched = [], printed = []\<rparr>)
     = Inl (CalledProcessError 1 (command 2) ''out'' ''err'')
   \<and> ''tmpdir            : /tmp/a''
       \<in> set (printed (fst (run_procs env_fail2 ''/tmp/a'' [1, 2, 4] [] []
                              \<lparr>launched = [], printed = []\<rparr>)))"
proof -
  have f: "returncode (fst (launch env_fail2 (command 2) [(''spike-1-0.dat'', [])])) \<noteq> 0"
    by (simp add: env_fail2_def command_2)
  have d: "decode env_fail2 (stdout (fst (launch env_fail2 (command 2) [(''spike-1-0.dat'', [])]))) = Inr ''out''"
      "decode env_fail2 (stderr (fst (launch env_fail2 (command 2) [(''spike-1-0.dat'', [])]))) = Inr ''err''"
    by (simp_all add: env_fail2_def command_2)
  have v: "fst (launch env_fail2 (command 2) [(''spike-1-0.dat'', [])])
      = \<lparr>returncode = 1, stdout = ''out'', stderr = ''err''\<rparr>"
    by (simp add: env_fail2_def command_2)
  from run_procs_fail_fast[OF env_fail2_level_1 f, of "[4]"] d v show ?thesis
    by simp
qed

text \<open>
  C3 as stated fails on the path of the working directory: for levels 1, 2, 4 with the
  run at level 2 failing, the raised error holds the exit status, the command and the
  two streams, and is the same error whatever the working directory is called.
\<close>

theorem run_procs_error_without_path:
  "snd (run_procs env_fail2 ''/tmp/a'' [1, 2, 4] [] [] \<lparr>launched = [], printed = []\<rparr>)
     = Inl (CalledProcessError 1
             [''mpirun'', ''-np'', ''2'', ''--oversubscribe'', ''python'', ''runner.py'']
             ''out'' ''err'')
   \<and> snd (run_procs env_fail2 ''/tmp/b'' [1, 2, 4] [] [] \<lparr>launched = [], printed = []\<rparr>)
     = Inl (CalledProcessError 1
             [''mpirun'', ''-np'', ''2'', ''--oversubscribe'', ''python'', ''runner.py'']
             ''out'' ''err'')"
  by (simp add: env_fail2_def command_1 command_2 Let_def report_failure_def)

section \<open>Properties of the collector\<close>

lemma bind_r_Inr_iff: "bind_r m f = Inr y \<longleftrightarrow> (\<exists>x. m = Inr x \<and> f x = Inr y)"
  by (cases m) (simp_all add: bind_r_def)

lemma bind_r_simps [simp]: "bind_r (Inl e) f = Inl e" "bind_r (Inr x) f = f x"
  by (simp_all add: bind_r_def)

lemma endswith_iff: "endswith s suf \<longleftrightarrow> (\<exists>p. s = p @ suf)"
proof
  assume "endswith s suf"
  then have "s = take (length s - length suf) s @ suf"
    by (metis append_take_drop_id endswith_def)
  then show "\<exists>p. s = p @ suf" ..
next
  assume "\<exists>p. s = p @ suf"
  then show "endswith s suf" by (auto simp: endswith_def)
qed

lemma normalize_label_endswith:
  assumes h: "normalize_label label = Inr l"
  shows "endswith l ''-{}-{}.dat''"
proof (cases "endswith label ''-{}-{}.dat''")
  case True
  with h show ?thesis by (simp add: normalize_label_def)
next
  case False
  with h have e: "endswith label ''-{}''" and l: "l = label @ ''-{}.dat''"
    by (auto simp: normalize_label_def split: if_splits)
  from e obtain p where "label = p @ ''-{}''" by (auto simp: endswith_iff)
  with l have "l = p @ ''-{}-{}.dat''" by simp
  then show ?thesis unfolding endswith_iff by blast
qed

text \<open>
  C9. A label that ends neither with \<open>-{}-{}.dat\<close> nor with \<open>-{}\<close> makes the collector
  fail with the assertion error, whatever the directory holds: nothing is looked up. A
  label that ends with one of the two is completed to a label that ends with
  \<open>-{}-{}.dat\<close>, and the collector goes on with that label.
\<close>

theorem collect_result_by_label_assertion:
  "(\<not> endswith label ''-{}-{}.dat'' \<and> \<not> endswith label ''-{}'' \<longrightarrow>
      collect_result_by_label pd d procs label = Inl (AssertionError []))
   \<and> (endswith label ''-{}-{}.dat'' \<or> endswith label ''-{}'' \<longrightarrow>
        (\<exists>l. normalize_label label = Inr l \<and> endswith l ''-{}-{}.dat''
           \<and> collect_result_by_label pd d procs label = collect_normalized pd d procs l))"
proof (intro conjI impI)
  assume "\<not> endswith label ''-{}-{}.dat'' \<and> \<not> endswith label ''-{}''"
  then show "collect_result_by_label pd d procs label = Inl (AssertionError [])"
    by (simp add: collect_result_by_label_def normalize_label_def)
next
  assume "endswith label ''-{}-{}.dat'' \<or> endswith label ''-{}''"
  then have "\<exists>l. normalize_label label = Inr l"
    by (cases "endswith label ''-{}-{}.dat''") (auto simp: normalize_label_def)
  then obtain l where l: "normalize_label label = Inr l" ..
  then have "collect_result_by_label pd d procs label = collect_normalized pd d procs l"
    by (simp add: collect_result_by_label_def)
  with l normalize_label_endswith[OF l]
  show "\<exists>l. normalize_label label = Inr l \<and> endswith l ''-{}-{}.dat''
           \<and> collect_result_by_label pd d procs label = collect_normalized pd d procs l"
    by blast
qed

theorem collect_result_by_label_assertion_witness:
  "collect_result_by_label table_pd [(''spike-1-0.dat'', [])] [1] ''spike'' = Inl (AssertionError [])
   \<and> normalize_label ''spike-{}'' = Inr ''spike-{}-{}.dat''
   \<and> collect_result_by_label table_pd [(''spike-1-0.dat'', [])] [1] ''spike-{}''
       = collect_normalized table_pd [(''spike-1-0.dat'', [])] [1] ''spike-{}-{}.dat''"
proof -
  have a: "\<not> endswith ''spike'' ''-{}-{}.dat'' \<and> \<not> endswith ''spike'' ''-{}''"
    by (simp add: endswith_def)
  have b: "endswith ''spike-{}'' ''-{}-{}.dat'' \<or> endswith ''spike-{}'' ''-{}''"
    by (simp add: endswith_def)
  have n: "normalize_label ''spike-{}'' = Inr ''spike-{}-{}.dat''"
    by (simp add: normalize_label_def endswith_def)
  from collect_result_by_label_assertion[of "''spike''" table_pd "[(''spike-1-0.dat'', [])]" "[1]"]
    collect_result_by_label_assertion[of "''spike-{}''" table_pd "[(''spike-1-0.dat'', [])]" "[1]"]
    a b n show ?thesis
    by auto
qed

lemma frames_of_simps:
  "frames_of pd [] = []"
  "frames_of pd (f # fs) =
     (case pd_read_csv pd (snd f) of Inl e \<Rightarrow> [] | Inr df \<Rightarrow> [df]) @ frames_of pd fs"
  by (simp_all add: frames_of_def)

lemma frames_of_append: "frames_of pd (fs @ gs) = frames_of pd fs @ frames_of pd gs"
  by (simp add: frames_of_def)

lemma read_files_frames: "read_files pd files = Inr data \<Longrightarrow> data = frames_of pd files"
proof (induction files arbitrary: data)
  case Nil
  then show ?case by (simp add: frames_of_simps)
next
  case (Cons f fs)
  show ?case
  proof (cases "pd_read_csv pd (snd f)")
    case (Inl e)
    with Cons.prems have "e = EmptyDataError" "read_files pd fs = Inr data"
      by (auto split: if_splits)
    with Cons.IH Inl show ?thesis by (simp add: frames_of_simps)
  next
    case (Inr df)
    with Cons.prems obtain rest where "read_files pd fs = Inr rest" "data = df # rest"
      by (auto simp: bind_r_Inr_iff)
    with Cons.IH Inr show ?thesis by (simp add: frames_of_simps)
  qed
qed

lemma read_files_total:
  assumes "\<forall>f\<in>set files. pd_read_csv pd (snd f) = Inl EmptyDataError
             \<or> (\<exists>df. pd_read_csv pd (snd f) = Inr df)"
  shows "read_files pd files = Inr (frames_of pd files)"
  using assms by (induction files) (auto simp: frames_of_simps)

lemma frames_of_all_empty:
  assumes "\<forall>f\<in>set files. pd_read_csv pd (snd f) = Inl EmptyDataError"
  shows "frames_of pd files = []"
  using assms by (induction files) (auto simp: frames_of_simps)

lemma collect_levels_lookup:
  "collect_levels pd d label procs res0 = Inr res \<Longrightarrow>
   str_format label [str_int n, ''*''] = Inr pat \<Longrightarrow>
   map_of res n = (if n \<in> set procs then Some (frames_of pd (glob d pat)) else map_of res0 n)"
proof (induction procs arbitrary: res0)
  case Nil
  then show ?case by simp
next
  case (Cons m rest)
  from Cons.prems(1) obtain pm dm where
    pm: "str_format label [str_int m, ''*''] = Inr pm" and
    dm: "read_files pd (glob d pm) = Inr dm" and
    rec: "collect_levels pd d label rest (AList.update m dm res0) = Inr res"
    by (auto simp: bind_r_Inr_iff)
  from read_files_frames[OF dm] have dm': "dm = frames_of pd (glob d pm)" .
  from Cons.IH[OF rec Cons.prems(2)] have
    ih: "map_of res n = (if n \<in> set rest then Some (frames_of pd (glob d pat))
           else map_of (AList.update m dm res0) n)" .
  show ?case
  proof (cases "n = m")
    case True
    with pm Cons.prems(2) have "pm = pat" by simp
    with ih True dm' show ?thesis by (simp add: update_conv')
  next
    case False
    with ih show ?thesis by (simp add: update_conv')
  qed
qed

lemma collect_some:
  assumes "collect_result_by_label pd d procs label = Inr (Some res)"
      and "normalize_label label = Inr lbl"
  shows "collect_levels pd d lbl procs [] = Inr res"
  using assms
  by (auto simp: collect_result_by_label_def collect_normalized_def bind_r_Inr_iff
           split: if_splits)

lemma format_labels:
  "str_format ''spike-{}-{}.dat'' [a, b] = Inr (''spike-'' @ a @ ''-'' @ b @ ''.dat'')"
  "str_format ''multi-{}-{}.dat'' [a, b] = Inr (''multi-'' @ a @ ''-'' @ b @ ''.dat'')"
  "str_format ''other-{}-{}.dat'' [a, b] = Inr (''other-'' @ a @ ''-'' @ b @ ''.dat'')"
  by simp_all

lemma normalize_labels:
  "normalize_label SPIKE_LABEL = Inr ''spike-{}-{}.dat''"
  "normalize_label MULTI_LABEL = Inr ''multi-{}-{}.dat''"
  "normalize_label OTHER_LABEL = Inr ''other-{}-{}.dat''"
  by (simp_all add: normalize_label_def SPIKE_LABEL_def MULTI_LABEL_def OTHER_LABEL_def endswith_def)

lemma str_int_1: "str_int 1 = ''1''"
  by (simp add: str_int_def str_nat.simps digit_char_def)

lemma str_int_2: "str_int 2 = ''2''"
  by (simp add: str_int_def str_nat.simps digit_char_def)

lemma read_empty_text: "table_read_csv [] = Inl EmptyDataError"
  by (simp add: table_read_csv_def)

lemma read_header_only: "table_read_csv (tsv [spike_header]) = Inr (spike_header, [])"
  by (simp add: table_read_csv_def tsv_def spike_header_def tab_def nl_def)

text \<open>
  C5, as the code has it. The list of a level is the frames of the files that match the
  level's pattern and parse, in the order of the directory. A file on which \<open>read_csv\<close>
  raises \<open>EmptyDataError\<close> (nothing to parse, as in an empty file) adds no frame and
  raises no error; a file that parses adds its frame, which is an empty frame when the
  file has a header and no data row.
\<close>

theorem collect_result_by_label_frames:
  assumes "normalize_label label = Inr lbl"
      and "str_format lbl [str_int n, ''*''] = Inr pat"
      and "n \<in> set procs"
      and "collect_result_by_label pd d procs label = Inr (Some res)"
  shows "map_of res n = Some (frames_of pd (glob d pat))
         \<and> (\<forall>name txt. pd_read_csv pd txt = Inl EmptyDataError \<longrightarrow>
               frames_of pd [(name, txt)] = [])
         \<and> (\<forall>name txt df. pd_read_csv pd txt = Inr df \<longrightarrow> frames_of pd [(name, txt)] = [df])
         \<and> frames_of pd (fs @ gs) = frames_of pd fs @ frames_of pd gs
         \<and> ((\<forall>f\<in>set fs. pd_read_csv pd (snd f) = Inl EmptyDataError
                  \<or> (\<exists>df. pd_read_csv pd (snd f) = Inr df)) \<longrightarrow>
              read_files pd fs = Inr (frames_of pd fs))"
proof -
  from collect_levels_lookup[OF collect_some[OF assms(4) assms(1)] assms(2)] assms(3)
  have "map_of res n = Some (frames_of pd (glob d pat))" by simp
  then show ?thesis
    using read_files_total[of fs pd]
    by (simp add: frames_of_simps frames_of_append)
qed

theorem collect_result_by_label_frames_witness:
  "collect_result_by_label table_pd
     [(''spike-1-0.dat'', tsv [spike_header]), (''spike-1-1.dat'', []), (''spike-2-0.dat'', [])]
     [1, 2] SPIKE_LABEL
   = Inr (Some [(1, [(spike_header, [])]), (2, [])])
   \<and> map_of [(1, [(spike_header, [])]), (2, [])] (1::int) = Some [(spike_header, [])]"
proof -
  let ?d = "[(''spike-1-0.dat'', tsv [spike_header]), (''spike-1-1.dat'', []), (''spike-2-0.dat'', [])]"
  have c: "collect_result_by_label table_pd ?d [1, 2] SPIKE_LABEL
             = Inr (Some [(1, [(spike_header, [])]), (2, [])])"
    by (simp add: collect_result_by_label_def normalize_labels collect_normalized_def glob_def
        str_int_1 str_int_2 table_pd_def read_empty_text read_header_only)
  have p: "str_format ''spike-{}-{}.dat'' [str_int 1, ''*''] = Inr ''spike-1-*.dat''"
    by (simp add: str_int_1)
  have m: "(1::int) \<in> set [1, 2]" by simp
  from collect_result_by_label_frames[OF normalize_labels(1) p m c, of "[]" "[]"] c show ?thesis
    by simp
qed

text \<open>
  C5 as stated fails on an empty file: it matches the spike template of level 1 and has
  no data row, reading it raises \<open>EmptyDataError\<close>, and the list of level 1 is empty:
  no empty frame stands in it.
\<close>

theorem collect_skips_empty_file:
  "table_read_csv [] = Inl EmptyDataError
   \<and> collect_result_by_label table_pd [(''spike-1-0.dat'', [])] [1] SPIKE_LABEL
       = Inr (Some [(1, [])])"
  by (simp add: collect_result_by_label_def normalize_labels collect_normalized_def glob_def
        str_int_1 table_pd_def read_empty_text)

section \<open>Properties of the comparison\<close>

lemma collect_none:
  "normalize_label label = Inr lbl \<Longrightarrow> str_format lbl [''*'', ''*''] = Inr wpat \<Longrightarrow>
   glob d wpat = [] \<Longrightarrow> collect_result_by_label pd d procs label = Inr None"
  by (simp add: collect_result_by_label_def collect_normalized_def)

lemma combine_all_has_empty:
  "[] \<in> set fss \<Longrightarrow> pd_concat pd [] = Inl e0 \<Longrightarrow> \<exists>e. combine_all pd by fss = Inl e"
proof (induction fss)
  case Nil
  then show ?case by simp
next
  case (Cons fs rest)
  show ?case
  proof (cases "combine pd by fs")
    case (Inl e)
    then show ?thesis by simp
  next
    case (Inr c)
    with Cons.prems(2) have "fs \<noteq> []" by (auto simp: combine_def)
    with Cons.prems(1) have "[] \<in> set rest" by auto
    from Cons.IH[OF this Cons.prems(2)] Inr show ?thesis by auto
  qed
qed

lemma combine_all_stops_at_empty:
  "combine_all pd by pre = Inr cs \<Longrightarrow> pd_concat pd [] = Inl e0 \<Longrightarrow>
   combine_all pd by (pre @ [] # post) = Inl e0"
  by (induction pre arbitrary: cs) (auto simp: bind_r_Inr_iff combine_def)

lemma collect_results_fields:
  assumes "collect_results pd w d = Inr w'"
  shows "collect_result_by_label pd d (procs_lst w) SPIKE_LABEL = Inr (spike w')"
    and "collect_result_by_label pd d (procs_lst w) MULTI_LABEL = Inr (multi w')"
    and "collect_result_by_label pd d (procs_lst w) OTHER_LABEL = Inr (other w')"
    and "procs_lst w' = procs_lst w"
  using assms by (auto simp: collect_results_def bind_r_Inr_iff)

lemma truthy_lookup:
  assumes "map_of res n = Some v"
  shows "truthy (Some res) \<and> v \<in> set (dict_values (Some res))"
proof -
  from assms have "(n, v) \<in> set res" by (rule map_of_SomeD)
  then show ?thesis by (force simp: truthy_def dict_values_def)
qed

lemma compare_fails_spike:
  "truthy (spike w) \<Longrightarrow> [] \<in> set (dict_values (spike w)) \<Longrightarrow> pd_concat pd [] = Inl e0 \<Longrightarrow>
   \<exists>e. compare_collected pd w = Inl e"
  using combine_all_has_empty[of "dict_values (spike w)" pd e0 spike_keys]
  by (auto simp: compare_collected_def)

lemma compare_fails_multi: "truthy (multi w) \<Longrightarrow> \<exists>e. compare_collected pd w = Inl e"
  by (cases "if truthy (spike w)
             then bind_r (combine_all pd spike_keys (dict_values (spike w))) (\<lambda>res. Inr [res])
             else Inr []")
     (simp_all add: compare_collected_def)

lemma compare_fails_other:
  assumes "truthy (other w)" and "[] \<in> set (dict_values (other w))" and "pd_concat pd [] = Inl e0"
  shows "\<exists>e. compare_collected pd w = Inl e"
proof (cases "truthy (multi w)")
  case True
  then show ?thesis by (rule compare_fails_multi)
next
  case False
  show ?thesis
  proof (cases "if truthy (spike w)
             then bind_r (combine_all pd spike_keys (dict_values (spike w))) (\<lambda>res. Inr [res])
             else Inr []")
    case (Inl e)
    then show ?thesis by (simp add: compare_collected_def)
  next
    case (Inr all_res)
    show ?thesis
    proof (cases "first_columns pd (dict_values (other w))")
      case (Inl e)
      with Inr False assms(1) show ?thesis by (simp add: compare_collected_def)
    next
      case cols: (Inr cols)
      from combine_all_has_empty[OF assms(2,3)] obtain e where
        "combine_all pd cols (dict_values (other w)) = Inl e" by blast
      with Inr False assms(1) cols show ?thesis by (simp add: compare_collected_def)
    qed
  qed
qed

lemma empty_level_entry:
  assumes norm: "normalize_label label = Inr lbl"
      and wild: "str_format lbl [''*'', ''*''] = Inr wpat"
      and some: "glob d wpat \<noteq> []"
      and lvl: "n \<in> set procs"
      and pat: "str_format lbl [str_int n, ''*''] = Inr pat"
      and empty: "\<forall>f\<in>set (glob d pat). pd_read_csv pd (snd f) = Inl EmptyDataError"
      and c: "collect_result_by_label pd d procs label = Inr r"
  shows "\<exists>res. r = Some res \<and> map_of res n = Some []"
proof -
  from c norm wild some obtain res where
    r: "r = Some res" and cl: "collect_levels pd d lbl procs [] = Inr res"
    by (auto simp: collect_result_by_label_def collect_normalized_def bind_r_Inr_iff)
  from collect_levels_lookup[OF cl pat] lvl frames_of_all_empty[OF empty]
  have "map_of res n = Some []" by simp
  with r show ?thesis by blast
qed

lemma empty_level_raises:
  assumes concat_empty: "pd_concat pd [] = Inl e0"
      and kind: "label = SPIKE_LABEL \<or> label = MULTI_LABEL \<or> label = OTHER_LABEL"
      and norm: "normalize_label label = Inr lbl"
      and wild: "str_format lbl [''*'', ''*''] = Inr wpat"
      and some: "glob d wpat \<noteq> []"
      and lvl: "n \<in> set (procs_lst w)"
      and pat: "str_format lbl [str_int n, ''*''] = Inr pat"
      and empty: "\<forall>f\<in>set (glob d pat). pd_read_csv pd (snd f) = Inl EmptyDataError"
  shows "\<exists>e. assert_correct_results pd w d = Inl e"
proof (cases "collect_results pd w d")
  case (Inl e)
  then show ?thesis by (simp add: assert_correct_results_def)
next
  case (Inr w')
  note f = collect_results_fields[OF Inr]
  note entry = empty_level_entry[OF norm wild some lvl pat empty]
  have "\<exists>e. compare_collected pd w' = Inl e"
    using kind
  proof (elim disjE)
    assume l: "label = SPIKE_LABEL"
    from entry[of "spike w'"] f(1) l obtain res where
      "spike w' = Some res" "map_of res n = Some []" by auto
    with truthy_lookup[of res n "[]"] show ?thesis
      by (intro compare_fails_spike[OF _ _ concat_empty]) simp_all
  next
    assume l: "label = MULTI_LABEL"
    from entry[of "multi w'"] f(2) l obtain res where
      "multi w' = Some res" "map_of res n = Some []" by auto
    with truthy_lookup[of res n "[]"] show ?thesis
      by (intro compare_fails_multi) simp_all
  next
    assume l: "label = OTHER_LABEL"
    from entry[of "other w'"] f(3) l obtain res where
      "other w' = Some res" "map_of res n = Some []" by auto
    with truthy_lookup[of res n "[]"] show ?thesis
      by (intro compare_fails_other[OF _ _ concat_empty]) simp_all
  qed
  with Inr show ?thesis by (simp add: assert_correct_results_def)
qed

text \<open>
  C10, as the code has it. Let a kind have a matching file, and let a configured level
  have no matching file, or only matching files with nothing to parse, on which
  \<open>read_csv\<close> raises \<open>EmptyDataError\<close>; \<open>pd.concat\<close> of no frames raises. Then the
  collector, where it returns, has an entry for that level with the empty list, and the
  comparator raises an error and does not pass; for the spike kind, where the levels
  before combine, the error is the one \<open>pd.concat\<close> raises on the empty list of that
  level.
\<close>

theorem empty_level_fails:
  assumes concat_empty: "pd_concat pd [] = Inl e0"
      and kind: "label = SPIKE_LABEL \<or> label = MULTI_LABEL \<or> label = OTHER_LABEL"
      and norm: "normalize_label label = Inr lbl"
      and wild: "str_format lbl [''*'', ''*''] = Inr wpat"
      and some: "glob d wpat \<noteq> []"
      and lvl: "n \<in> set (procs_lst w)"
      and pat: "str_format lbl [str_int n, ''*''] = Inr pat"
      and empty: "\<forall>f\<in>set (glob d pat). pd_read_csv pd (snd f) = Inl EmptyDataError"
  shows "(\<forall>r. collect_result_by_label pd d (procs_lst w) label = Inr r \<longrightarrow>
            (\<exists>res. r = Some res \<and> map_of res n = Some []))
         \<and> (\<exists>e. assert_correct_results pd w d = Inl e)
         \<and> (\<forall>w' pre post cs. collect_results pd w d = Inr w'
               \<and> spike w' = Some (pre @ (n, []) # post)
               \<and> combine_all pd spike_keys (map snd pre) = Inr cs \<longrightarrow>
             assert_correct_results pd w d = Inl e0)"
proof -
  note part1 = empty_level_entry[OF norm wild some lvl pat empty]
  note part2 = empty_level_raises[OF concat_empty kind norm wild some lvl pat empty]
  have part3: "assert_correct_results pd w d = Inl e0"
    if "collect_results pd w d = Inr w'" "spike w' = Some (pre @ (n, []) # post)"
       "combine_all pd spike_keys (map snd pre) = Inr cs" for w' pre post cs
    using that combine_all_stops_at_empty[OF that(3) concat_empty, of "map snd post"]
    by (simp add: assert_correct_results_def compare_collected_def truthy_def dict_values_def)
  from part1 part2 part3 show ?thesis by blast
qed

theorem empty_level_fails_witness:
  "collect_result_by_label table_pd dir_level_2_empty [1, 2] SPIKE_LABEL
     = Inr (Some [(1, [(spike_header, [[''5'', ''10'', ''0'']])]), (2, [])])
   \<and> assert_correct_results table_pd wrapper_1_2 dir_level_2_empty
     = Inl (ValueError ''No objects to concatenate'')"
proof -
  have h1: "pd_concat table_pd [] = Inl (ValueError ''No objects to concatenate'')"
    by (simp add: table_pd_def table_concat_def)
  have h2: "SPIKE_LABEL = SPIKE_LABEL \<or> SPIKE_LABEL = MULTI_LABEL \<or> SPIKE_LABEL = OTHER_LABEL"
    by simp
  have h4: "str_format ''spike-{}-{}.dat'' [''*'', ''*''] = Inr ''spike-*-*.dat''"
    by simp
  have h5: "glob dir_level_2_empty ''spike-*-*.dat'' \<noteq> []"
    by code_simp
  have h6: "2 \<in> set (procs_lst wrapper_1_2)"
    by (simp add: wrapper_1_2_def)
  have h7: "str_format ''spike-{}-{}.dat'' [str_int 2, ''*''] = Inr ''spike-2-*.dat''"
    by (simp add: str_int_2)
  have h8: "\<forall>f\<in>set (glob dir_level_2_empty ''spike-2-*.dat'').
              pd_read_csv table_pd (snd f) = Inl EmptyDataError"
    by code_simp
  have c: "collect_result_by_label table_pd dir_level_2_empty [1, 2] SPIKE_LABEL
     = Inr (Some [(1, [(spike_header, [[''5'', ''10'', ''0'']])]), (2, [])])"
    by code_simp
  have cr: "collect_results table_pd wrapper_1_2 dir_level_2_empty
     = Inr (wrapper_1_2\<lparr>spike := Some ([(1, [(spike_header, [[''5'', ''10'', ''0'']])])] @ (2, []) # []),
                        multi := None, other := None\<rparr>)"
    by code_simp
  have cb: "combine_all table_pd spike_keys (map snd [(1::int, [(spike_header, [[''5'', ''10'', ''0'']])])])
     = Inr [(spike_header, [[''5'', ''10'', ''0'']])]"
    by code_simp
  from empty_level_fails[OF h1 h2 normalize_labels(1) h4 h5 h6 h7 h8] have
    "\<forall>w' pre post cs. collect_results table_pd wrapper_1_2 dir_level_2_empty = Inr w'
               \<and> spike w' = Some (pre @ (2, []) # post)
               \<and> combine_all table_pd spike_keys (map snd pre) = Inr cs \<longrightarrow>
             assert_correct_results table_pd wrapper_1_2 dir_level_2_empty
               = Inl (ValueError ''No objects to concatenate'')"
    by blast
  from this[rule_format, of _ "[(1, [(spike_header, [[''5'', ''10'', ''0'']])])]" "[]",
      OF conjI[OF cr conjI[OF _ cb]]]
  have "assert_correct_results table_pd wrapper_1_2 dir_level_2_empty
               = Inl (ValueError ''No objects to concatenate'')"
    by simp
  with c show ?thesis by simp
qed

text \<open>
  C10 as stated fails for files that have a header line and no data row: both levels
  have such a spike file only, each file parses to an empty frame, the entry of each
  level holds that frame and is not the empty list, and the comparator passes.
\<close>

theorem header_only_levels_pass:
  "collect_result_by_label table_pd dir_headers_only [1, 2] SPIKE_LABEL
     = Inr (Some [(1, [(spike_header, [])]), (2, [(spike_header, [])])])
   \<and> assert_correct_results table_pd wrapper_1_2 dir_headers_only = Inr ()"
  by code_simp

lemma no_levels_no_data:
  assumes "procs_lst w = []"
  shows "assert_correct_results pd w d = Inl (AssertionError ''No test data collected'')"
proof (cases "collect_results pd w d")
  case (Inl e)
  with assms show ?thesis
    by (auto simp: collect_results_def collect_result_by_label_def collect_normalized_def
          normalize_labels bind_r_def split: if_splits sum.splits)
next
  case (Inr w')
  note f = collect_results_fields[OF Inr]
  have k: "\<not> truthy r" if "collect_result_by_label pd d [] label = Inr r" for r label
    using that
    by (auto simp: collect_result_by_label_def collect_normalized_def bind_r_Inr_iff
          truthy_def split: if_splits)
  from f(1-3) assms have "\<not> truthy (spike w')" "\<not> truthy (multi w')" "\<not> truthy (other w')"
    using k by auto
  with Inr show ?thesis
    by (simp add: assert_correct_results_def compare_collected_def)
qed

text \<open>
  C6, as the code has it. When no file of the working directory matches the spike, the
  multimeter or the generic template, whatever the level and the rank, no kind has data
  and the comparator fails with the assertion \<open>No test data collected\<close>. When it is only
  for the configured levels that no file matches, the comparator still raises an error
  and does not pass (\<open>pd.concat\<close> raising on no frames).
\<close>

theorem no_data_collected:
  "(glob d ''spike-*-*.dat'' = [] \<and> glob d ''multi-*-*.dat'' = []
      \<and> glob d ''other-*-*.dat'' = [] \<longrightarrow>
      assert_correct_results pd w d = Inl (AssertionError ''No test data collected''))
   \<and> (pd_concat pd [] = Inl exn
        \<and> (\<forall>n\<in>set (procs_lst w).
              glob d (''spike-'' @ str_int n @ ''-*.dat'') = []
              \<and> glob d (''multi-'' @ str_int n @ ''-*.dat'') = []
              \<and> glob d (''other-'' @ str_int n @ ''-*.dat'') = []) \<longrightarrow>
        (\<exists>e. assert_correct_results pd w d = Inl e))"
proof (intro conjI impI)
  assume a: "glob d ''spike-*-*.dat'' = [] \<and> glob d ''multi-*-*.dat'' = []
      \<and> glob d ''other-*-*.dat'' = []"
  from a have a1: "glob d ''spike-*-*.dat'' = []" and a2: "glob d ''multi-*-*.dat'' = []"
    and a3: "glob d ''other-*-*.dat'' = []"
    by simp_all
  have s: "collect_result_by_label pd d (procs_lst w) SPIKE_LABEL = Inr None"
    using a1 by (intro collect_none[OF normalize_labels(1)]) simp_all
  have m: "collect_result_by_label pd d (procs_lst w) MULTI_LABEL = Inr None"
    using a2 by (intro collect_none[OF normalize_labels(2)]) simp_all
  have ot: "collect_result_by_label pd d (procs_lst w) OTHER_LABEL = Inr None"
    using a3 by (intro collect_none[OF normalize_labels(3)]) simp_all
  have c: "collect_results pd w d = Inr (w\<lparr>spike := None, multi := None, other := None\<rparr>)"
    by (simp add: collect_results_def s m ot)
  show "assert_correct_results pd w d = Inl (AssertionError ''No test data collected'')"
    by (simp add: assert_correct_results_def c compare_collected_def truthy_def)
next
  assume b: "pd_concat pd [] = Inl exn
        \<and> (\<forall>n\<in>set (procs_lst w).
              glob d (''spike-'' @ str_int n @ ''-*.dat'') = []
              \<and> glob d (''multi-'' @ str_int n @ ''-*.dat'') = []
              \<and> glob d (''other-'' @ str_int n @ ''-*.dat'') = [])"
  then have ce: "pd_concat pd [] = Inl exn" by simp
  show "\<exists>e. assert_correct_results pd w d = Inl e"
  proof (cases "procs_lst w")
    case Nil
    from no_levels_no_data[OF this] show ?thesis by blast
  next
    case (Cons n rest)
    then have lvl: "n \<in> set (procs_lst w)" by simp
    with b have e: "glob d (''spike-'' @ str_int n @ ''-*.dat'') = []"
        "glob d (''multi-'' @ str_int n @ ''-*.dat'') = []"
        "glob d (''other-'' @ str_int n @ ''-*.dat'') = []"
      by auto
    consider (none) "glob d ''spike-*-*.dat'' = []" "glob d ''multi-*-*.dat'' = []"
          "glob d ''other-*-*.dat'' = []"
      | (spike) "glob d ''spike-*-*.dat'' \<noteq> []"
      | (multi) "glob d ''multi-*-*.dat'' \<noteq> []"
      | (other) "glob d ''other-*-*.dat'' \<noteq> []"
      by blast
    then show ?thesis
    proof cases
      case none
      have s: "collect_result_by_label pd d (procs_lst w) SPIKE_LABEL = Inr None"
        using none(1) by (intro collect_none[OF normalize_labels(1)]) simp_all
      have m: "collect_result_by_label pd d (procs_lst w) MULTI_LABEL = Inr None"
        using none(2) by (intro collect_none[OF normalize_labels(2)]) simp_all
      have ot: "collect_result_by_label pd d (procs_lst w) OTHER_LABEL = Inr None"
        using none(3) by (intro collect_none[OF normalize_labels(3)]) simp_all
      have c: "collect_results pd w d = Inr (w\<lparr>spike := None, multi := None, other := None\<rparr>)"
        by (simp add: collect_results_def s m ot)
      show ?thesis
        by (simp add: assert_correct_results_def c compare_collected_def truthy_def)
    next
      case spike
      show ?thesis
        by (rule empty_level_raises[where label = SPIKE_LABEL and wpat = "''spike-*-*.dat''"
              and pat = "''spike-'' @ str_int n @ ''-*.dat''", OF ce _ normalize_labels(1) _ spike lvl])
           (use e in simp_all)
    next
      case multi
      show ?thesis
        by (rule empty_level_raises[where label = MULTI_LABEL and wpat = "''multi-*-*.dat''"
              and pat = "''multi-'' @ str_int n @ ''-*.dat''", OF ce _ normalize_labels(2) _ multi lvl])
           (use e in simp_all)
    next
      case other
      show ?thesis
        by (rule empty_level_raises[where label = OTHER_LABEL and wpat = "''other-*-*.dat''"
              and pat = "''other-'' @ str_int n @ ''-*.dat''", OF ce _ normalize_labels(3) _ other lvl])
           (use e in simp_all)
    qed
  qed
qed

theorem no_data_collected_witness:
  "assert_correct_results table_pd wrapper_1_2 [(''runner.py'', ''pass'')]
     = Inl (AssertionError ''No test data collected'')
   \<and> assert_correct_results table_pd wrapper_1_2 [(''spike-3-0.dat'', tsv [spike_header])]
     = Inl (ValueError ''No objects to concatenate'')"
proof -
  have a: "glob [(''runner.py'', ''pass'')] ''spike-*-*.dat'' = []
      \<and> glob [(''runner.py'', ''pass'')] ''multi-*-*.dat'' = []
      \<and> glob [(''runner.py'', ''pass'')] ''other-*-*.dat'' = []"
    by (simp add: glob_def)
  have b: "pd_concat table_pd [] = Inl (ValueError ''No objects to concatenate'')
        \<and> (\<forall>n\<in>set (procs_lst wrapper_1_2).
              glob [(''spike-3-0.dat'', tsv [spike_header])] (''spike-'' @ str_int n @ ''-*.dat'') = []
              \<and> glob [(''spike-3-0.dat'', tsv [spike_header])] (''multi-'' @ str_int n @ ''-*.dat'') = []
              \<and> glob [(''spike-3-0.dat'', tsv [spike_header])] (''other-'' @ str_int n @ ''-*.dat'') = [])"
    by (simp add: table_pd_def table_concat_def wrapper_1_2_def str_int_1 str_int_2 glob_def)
  have v: "assert_correct_results table_pd wrapper_1_2 [(''spike-3-0.dat'', tsv [spike_header])]
     = Inl (ValueError ''No objects to concatenate'')"
    by code_simp
  from no_data_collected[where d = "[(''runner.py'', ''pass'')]" and pd = table_pd
      and w = wrapper_1_2]
    no_data_collected[where d = "[(''spike-3-0.dat'', tsv [spike_header])]" and pd = table_pd
      and exn = "ValueError ''No objects to concatenate''" and w = wrapper_1_2] a b v
  show ?thesis by blast
qed

text \<open>
  C6 as stated fails when a file matches a template at a level that is not configured:
  for levels 1 and 2 and a single spike file of level 3, with a header line and no data
  row, no file matches at a configured level and no kind has any data, and the error
  raised is the one of \<open>pd.concat\<close>, not the assertion \<open>No test data collected\<close>.
\<close>

theorem no_data_at_configured_levels:
  "glob [(''spike-3-0.dat'', tsv [spike_header])] ''spike-1-*.dat'' = []
   \<and> glob [(''spike-3-0.dat'', tsv [spike_header])] ''spike-2-*.dat'' = []
   \<and> glob [(''spike-3-0.dat'', tsv [spike_header])] ''multi-*-*.dat'' = []
   \<and> glob [(''spike-3-0.dat'', tsv [spike_header])] ''other-*-*.dat'' = []
   \<and> collect_results table_pd wrapper_1_2 [(''spike-3-0.dat'', tsv [spike_header])]
       = Inr (wrapper_1_2\<lparr>spike := Some [(1, []), (2, [])], multi := None, other := None\<rparr>)
   \<and> assert_correct_results table_pd wrapper_1_2 [(''spike-3-0.dat'', tsv [spike_header])]
       = Inl (ValueError ''No objects to concatenate'')"
  by code_simp

lemma update_fresh: "k \<notin> fst ` set al \<Longrightarrow> AList.update k v al = al @ [(k, v)]"
  by (induction al) auto

lemma collect_levels_distinct:
  "collect_levels pd d label procs res0 = Inr res \<Longrightarrow>
   distinct (map fst res0 @ procs) \<Longrightarrow>
   \<forall>n\<in>set procs. str_format label [str_int n, ''*''] = Inr (pat n) \<Longrightarrow>
   res = res0 @ map (\<lambda>n. (n, frames_of pd (glob d (pat n)))) procs"
proof (induction procs arbitrary: res0)
  case Nil
  then show ?case by simp
next
  case (Cons m rest)
  from Cons.prems(3) have pm: "str_format label [str_int m, ''*''] = Inr (pat m)" by simp
  with Cons.prems(1) obtain dm where
    dm: "read_files pd (glob d (pat m)) = Inr dm" and
    rec: "collect_levels pd d label rest (AList.update m dm res0) = Inr res"
    by (auto simp: bind_r_Inr_iff)
  from read_files_frames[OF dm] have dm': "dm = frames_of pd (glob d (pat m))" .
  from Cons.prems(2) have fresh: "m \<notin> fst ` set res0" by auto
  then have upd: "AList.update m dm res0 = res0 @ [(m, dm)]" by (rule update_fresh)
  from Cons.prems(2) have d2: "distinct (map fst (res0 @ [(m, dm)]) @ rest)" by auto
  from Cons.prems(3) have p2: "\<forall>n\<in>set rest. str_format label [str_int n, ''*''] = Inr (pat n)"
    by simp
  from Cons.IH[OF rec[unfolded upd] d2 p2] dm' show ?case by simp
qed

lemma collected_kind:
  assumes c: "collect_result_by_label pd d procs label = Inr r"
      and norm: "normalize_label label = Inr lbl"
      and wild: "str_format lbl [''*'', ''*''] = Inr wpat"
      and pat: "\<forall>n\<in>set procs. str_format lbl [str_int n, ''*''] = Inr (pat n)"
      and dist: "distinct procs"
  shows "r = (if glob d wpat = [] then None
              else Some (map (\<lambda>n. (n, frames_of pd (glob d (pat n)))) procs))"
proof (cases "glob d wpat = []")
  case True
  with c norm wild show ?thesis
    by (simp add: collect_result_by_label_def collect_normalized_def)
next
  case False
  with c norm wild obtain res where
    r: "r = Some res" and cl: "collect_levels pd d lbl procs [] = Inr res"
    by (auto simp: collect_result_by_label_def collect_normalized_def bind_r_Inr_iff)
  from collect_levels_distinct[OF cl _ pat] dist r False show ?thesis by simp
qed

lemma agree_others:
  "(\<exists>cs. combine_all pd by others = Inr cs \<and> (\<forall>r\<in>set cs. pd_assert_frame_equal pd c0 r = Inr ()))
   \<longleftrightarrow> list_all (\<lambda>frames. case combine pd by frames of
                               Inl e \<Rightarrow> False
                             | Inr c \<Rightarrow> pd_assert_frame_equal pd c0 c = Inr ()) others"
  by (induction others) (auto simp: bind_r_Inr_iff split: sum.splits)

lemma combine_all_length: "combine_all pd by fss = Inr cs \<Longrightarrow> length cs = length fss"
  by (induction fss arbitrary: cs) (auto simp: bind_r_Inr_iff)

lemma assert_all_equal_iff:
  "assert_all_equal pd r0 rs = Inr () \<longleftrightarrow> (\<forall>r\<in>set rs. pd_assert_frame_equal pd r0 r = Inr ())"
  by (induction rs) (auto simp: bind_r_Inr_iff)

lemma passes_iff:
  "(case combine_all pd by fss of Inl e \<Rightarrow> False | Inr cs \<Rightarrow> check_res pd n cs = Inr ())
   \<longleftrightarrow> length fss = n \<and> levels_agree pd by fss"
proof (cases fss)
  case Nil
  then show ?thesis by (auto simp: check_res_def levels_agree_def)
next
  case (Cons first others)
  show ?thesis
  proof (cases "combine pd by first")
    case (Inl e)
    with Cons show ?thesis by (simp add: levels_agree_def)
  next
    case c0: (Inr c0)
    show ?thesis
    proof (cases "combine_all pd by others")
      case (Inl e)
      with agree_others[of pd "by" others c0] have
        "\<not> list_all (\<lambda>frames. case combine pd by frames of
                               Inl e \<Rightarrow> False
                             | Inr c \<Rightarrow> pd_assert_frame_equal pd c0 c = Inr ()) others"
        by simp
      with Cons c0 Inl show ?thesis by (simp add: levels_agree_def)
    next
      case (Inr cs)
      with agree_others[of pd "by" others c0] have
        "list_all (\<lambda>frames. case combine pd by frames of
                               Inl e \<Rightarrow> False
                             | Inr c \<Rightarrow> pd_assert_frame_equal pd c0 c = Inr ()) others
         \<longleftrightarrow> (\<forall>r\<in>set cs. pd_assert_frame_equal pd c0 r = Inr ())"
        by simp
      with Cons c0 Inr combine_all_length[OF Inr] show ?thesis
        by (auto simp: levels_agree_def check_res_def assert_all_equal_iff)
    qed
  qed
qed

lemma check_all_single: "check_all pd n [res] = check_res pd n res"
  by (cases "check_res pd n res") simp_all

lemma check_all_pair:
  "check_all pd n [a, b] = Inr () \<longleftrightarrow> check_res pd n a = Inr () \<and> check_res pd n b = Inr ()"
  by (cases "check_res pd n a"; cases "check_res pd n b") simp_all

lemma compare_collected_iff:
  "compare_collected pd w = Inr () \<longleftrightarrow>
     \<not> truthy (multi w) \<and> (truthy (spike w) \<or> truthy (other w))
     \<and> (truthy (spike w) \<longrightarrow>
          (case combine_all pd spike_keys (dict_values (spike w)) of
             Inl e \<Rightarrow> False
           | Inr cs \<Rightarrow> check_res pd (length (procs_lst w)) cs = Inr ()))
     \<and> (truthy (other w) \<longrightarrow>
          (case first_columns pd (dict_values (other w)) of
             Inl e \<Rightarrow> False
           | Inr cols \<Rightarrow>
               (case combine_all pd cols (dict_values (other w)) of
                  Inl e \<Rightarrow> False
                | Inr cs \<Rightarrow> check_res pd (length (procs_lst w)) cs = Inr ())))"
proof (cases "truthy (multi w)")
  case True
  then show ?thesis using compare_fails_multi[OF True, of pd] by auto
next
  case nm: False
  show ?thesis
  proof (cases "truthy (spike w)")
    case sp: True
    show ?thesis
    proof (cases "truthy (other w)")
      case True
      with sp nm show ?thesis
        by (auto simp: compare_collected_def check_all_pair simp del: check_all.simps
                 split: sum.splits)
    next
      case False
      with sp nm show ?thesis
        by (auto simp: compare_collected_def check_all_single simp del: check_all.simps
                 split: sum.splits)
    qed
  next
    case nsp: False
    show ?thesis
    proof (cases "truthy (other w)")
      case True
      with nsp nm show ?thesis
        by (auto simp: compare_collected_def check_all_single simp del: check_all.simps
                 split: sum.splits)
    next
      case False
      with nsp nm show ?thesis
        by (simp add: compare_collected_def)
    qed
  qed
qed

lemma collect_levels_keys:
  "collect_levels pd d label procs res0 = Inr res \<Longrightarrow> distinct (map fst res0) \<Longrightarrow>
   distinct (map fst res) \<and> set (map fst res) = set (map fst res0) \<union> set procs"
proof (induction procs arbitrary: res0)
  case Nil
  then show ?case by simp
next
  case (Cons m rest)
  from Cons.prems(1) obtain dm where
    rec: "collect_levels pd d label rest (AList.update m dm res0) = Inr res"
    by (auto simp: bind_r_Inr_iff)
  have "distinct (map fst (AList.update m dm res0))"
    using Cons.prems(2) by (rule distinct_update)
  from Cons.IH[OF rec this] show ?case
    by (auto simp: update_keys split: if_splits)
qed

lemma collected_all_levels:
  assumes c: "collect_result_by_label pd d procs label = Inr r"
      and norm: "normalize_label label = Inr lbl"
      and t: "truthy r"
      and len: "length (dict_values r) = length procs"
  shows "distinct procs"
proof -
  from t obtain res where r: "r = Some res" by (auto simp: truthy_def split: option.splits)
  from collect_levels_keys[OF collect_some[OF c[unfolded r] norm]] have
    k: "distinct (map fst res)" "set (map fst res) = set procs"
    by simp_all
  from len r have "length (map fst res) = length procs" by (simp add: dict_values_def)
  with k have "card (set procs) = length procs"
    by (metis distinct_card)
  then show ?thesis by (rule card_distinct)
qed

lemma passes_length:
  "(case combine_all pd by fss of Inl e \<Rightarrow> False | Inr cs \<Rightarrow> check_res pd n cs = Inr ())
   \<Longrightarrow> length fss = n"
  by (simp add: passes_iff)

text \<open>
  C1, as the code has it. Where the collection returns: for distinct levels, each kind
  with a matching file
  has, for each configured level in order, the frames of that level's files; and the
  comparator passes exactly when the levels are distinct, the multimeter kind has
  nothing, the spike or the generic kind has something, and for each of these two that
  has something the levels agree: each level's frames are concatenated and sorted, by
  \<open>time_step\<close>, \<open>time_offset\<close>, \<open>sender\<close> for the spike kind and by the columns of the
  first frame of the first level for the generic kind, and \<open>assert_frame_equal\<close>
  accepts the first level's frame against every other level's. Otherwise an error is
  raised; when the multimeter kind has something, it is \<open>NotImplementedError\<close>, raised
  once the spike frames, if there are any, have been combined.
\<close>

theorem assert_correct_results_compares:
  assumes coll: "collect_results pd w d = Inr w'"
  shows "(distinct (procs_lst w) \<longrightarrow>
           spike w' = (if glob d ''spike-*-*.dat'' = [] then None
                     else Some (map (\<lambda>n. (n, frames_of pd (glob d (''spike-'' @ str_int n @ ''-*.dat''))))
                                 (procs_lst w)))
           \<and> multi w' = (if glob d ''multi-*-*.dat'' = [] then None
                     else Some (map (\<lambda>n. (n, frames_of pd (glob d (''multi-'' @ str_int n @ ''-*.dat''))))
                                 (procs_lst w)))
           \<and> other w' = (if glob d ''other-*-*.dat'' = [] then None
                     else Some (map (\<lambda>n. (n, frames_of pd (glob d (''other-'' @ str_int n @ ''-*.dat''))))
                                 (procs_lst w))))
         \<and> (assert_correct_results pd w d = Inr () \<longleftrightarrow>
              distinct (procs_lst w)
              \<and> \<not> truthy (multi w') \<and> (truthy (spike w') \<or> truthy (other w'))
              \<and> (truthy (spike w') \<longrightarrow> levels_agree pd spike_keys (dict_values (spike w')))
              \<and> (truthy (other w') \<longrightarrow>
                   (\<exists>all_columns. first_columns pd (dict_values (other w')) = Inr all_columns
                      \<and> levels_agree pd all_columns (dict_values (other w')))))
         \<and> (truthy (multi w')
              \<and> (truthy (spike w') \<longrightarrow>
                   (\<exists>res. combine_all pd spike_keys (dict_values (spike w')) = Inr res)) \<longrightarrow>
              assert_correct_results pd w d = Inl (NotImplementedError ''MULTI is not ready yet''))"
proof -
  note f = collect_results_fields[OF coll]
  have shapes: "spike w' = (if glob d ''spike-*-*.dat'' = [] then None
                     else Some (map (\<lambda>n. (n, frames_of pd (glob d (''spike-'' @ str_int n @ ''-*.dat''))))
                                 (procs_lst w)))
           \<and> multi w' = (if glob d ''multi-*-*.dat'' = [] then None
                     else Some (map (\<lambda>n. (n, frames_of pd (glob d (''multi-'' @ str_int n @ ''-*.dat''))))
                                 (procs_lst w)))
           \<and> other w' = (if glob d ''other-*-*.dat'' = [] then None
                     else Some (map (\<lambda>n. (n, frames_of pd (glob d (''other-'' @ str_int n @ ''-*.dat''))))
                                 (procs_lst w)))"
    if dist: "distinct (procs_lst w)"
    using collected_kind[OF f(1) normalize_labels(1) _ _ dist,
        of "''spike-*-*.dat''" "\<lambda>n. ''spike-'' @ str_int n @ ''-*.dat''"]
      collected_kind[OF f(2) normalize_labels(2) _ _ dist,
        of "''multi-*-*.dat''" "\<lambda>n. ''multi-'' @ str_int n @ ''-*.dat''"]
      collected_kind[OF f(3) normalize_labels(3) _ _ dist,
        of "''other-*-*.dat''" "\<lambda>n. ''other-'' @ str_int n @ ''-*.dat''"]
    by simp
  have eq: "assert_correct_results pd w d = compare_collected pd w'"
    by (simp add: assert_correct_results_def coll)
  have ls: "length (dict_values (spike w')) = length (procs_lst w')"
    if "truthy (spike w')" "distinct (procs_lst w)"
    using that shapes f(4) by (auto simp: truthy_def dict_values_def split: if_splits)
  have lo: "length (dict_values (other w')) = length (procs_lst w')"
    if "truthy (other w')" "distinct (procs_lst w)"
    using that shapes f(4) by (auto simp: truthy_def dict_values_def split: if_splits)
  have dist_if_pass: "distinct (procs_lst w)" if pass: "compare_collected pd w' = Inr ()"
  proof -
    from pass have k: "truthy (spike w') \<or> truthy (other w')"
      by (simp add: compare_collected_iff)
    then show ?thesis
    proof
      assume t: "truthy (spike w')"
      with pass have "case combine_all pd spike_keys (dict_values (spike w')) of
             Inl e \<Rightarrow> False
           | Inr cs \<Rightarrow> check_res pd (length (procs_lst w')) cs = Inr ()"
        by (simp add: compare_collected_iff)
      from passes_length[OF this] f(4) have "length (dict_values (spike w')) = length (procs_lst w)"
        by simp
      from collected_all_levels[OF f(1) normalize_labels(1) t this] show ?thesis .
    next
      assume t: "truthy (other w')"
      with pass have "case first_columns pd (dict_values (other w')) of
             Inl e \<Rightarrow> False
           | Inr cols \<Rightarrow>
               (case combine_all pd cols (dict_values (other w')) of
                  Inl e \<Rightarrow> False
                | Inr cs \<Rightarrow> check_res pd (length (procs_lst w')) cs = Inr ())"
        by (simp add: compare_collected_iff)
      then obtain cols where "case combine_all pd cols (dict_values (other w')) of
             Inl e \<Rightarrow> False
           | Inr cs \<Rightarrow> check_res pd (length (procs_lst w')) cs = Inr ()"
        by (cases "first_columns pd (dict_values (other w'))") auto
      from passes_length[OF this] f(4) have "length (dict_values (other w')) = length (procs_lst w)"
        by simp
      from collected_all_levels[OF f(3) normalize_labels(3) t this] show ?thesis .
    qed
  qed
  have sp: "(case combine_all pd spike_keys (dict_values (spike w')) of
               Inl e \<Rightarrow> False
             | Inr cs \<Rightarrow> check_res pd (length (procs_lst w')) cs = Inr ())
            \<longleftrightarrow> levels_agree pd spike_keys (dict_values (spike w'))"
    if "truthy (spike w')" "distinct (procs_lst w)"
    using ls[OF that] by (simp add: passes_iff)
  have op: "(case combine_all pd cols (dict_values (other w')) of
               Inl e \<Rightarrow> False
             | Inr cs \<Rightarrow> check_res pd (length (procs_lst w')) cs = Inr ())
            \<longleftrightarrow> levels_agree pd cols (dict_values (other w'))"
    if "truthy (other w')" "distinct (procs_lst w)" for cols
    using lo[OF that] by (simp add: passes_iff)
  have iff: "assert_correct_results pd w d = Inr () \<longleftrightarrow>
              distinct (procs_lst w)
              \<and> \<not> truthy (multi w') \<and> (truthy (spike w') \<or> truthy (other w'))
              \<and> (truthy (spike w') \<longrightarrow> levels_agree pd spike_keys (dict_values (spike w')))
              \<and> (truthy (other w') \<longrightarrow>
                   (\<exists>all_columns. first_columns pd (dict_values (other w')) = Inr all_columns
                      \<and> levels_agree pd all_columns (dict_values (other w'))))"
  proof (cases "distinct (procs_lst w)")
    case True
    then show ?thesis
      using sp op eq by (auto simp: compare_collected_iff split: sum.splits)
  next
    case False
    with dist_if_pass eq show ?thesis by auto
  qed
  have guard: "assert_correct_results pd w d = Inl (NotImplementedError ''MULTI is not ready yet'')"
    if "truthy (multi w')"
       "truthy (spike w') \<longrightarrow> (\<exists>res. combine_all pd spike_keys (dict_values (spike w')) = Inr res)"
    using that by (auto simp: eq compare_collected_def)
  from shapes iff guard show ?thesis by blast
qed


lemma collect_two_levels:
  "collect_results table_pd wrapper_1_2 dir_two_levels = Inr collected_two_levels"
  by code_simp

theorem assert_correct_results_compares_witness:
  "assert_correct_results table_pd wrapper_1_2 dir_two_levels = Inr ()
   \<and> spike collected_two_levels =
       Some (map (\<lambda>n. (n, frames_of table_pd (glob dir_two_levels (''spike-'' @ str_int n @ ''-*.dat''))))
               [1, 2])
   \<and> levels_agree table_pd spike_keys (dict_values (spike collected_two_levels))
   \<and> combine table_pd spike_keys
        [(spike_header, [[''5'', ''20'', ''0''], [''5'', ''10'', ''0'']]),
         (spike_header, [[''6'', ''10'', ''0'']])]
      = Inr (spike_header, [[''5'', ''10'', ''0''], [''6'', ''10'', ''0''], [''5'', ''20'', ''0'']])"
proof -
  have dist: "distinct (procs_lst wrapper_1_2)"
    by (simp add: wrapper_1_2_def)
  have pass: "assert_correct_results table_pd wrapper_1_2 dir_two_levels = Inr ()"
    by code_simp
  have files: "glob dir_two_levels ''spike-*-*.dat'' \<noteq> []"
    by code_simp
  have tr: "truthy (spike collected_two_levels)"
    by code_simp
  have comb: "combine table_pd spike_keys
        [(spike_header, [[''5'', ''20'', ''0''], [''5'', ''10'', ''0'']]),
         (spike_header, [[''6'', ''10'', ''0'']])]
      = Inr (spike_header, [[''5'', ''10'', ''0''], [''6'', ''10'', ''0''], [''5'', ''20'', ''0'']])"
    by code_simp
  have lv: "procs_lst wrapper_1_2 = [1, 2]"
    by (simp add: wrapper_1_2_def)
  note T = assert_correct_results_compares[OF collect_two_levels]
  from T dist have "spike collected_two_levels =
      (if glob dir_two_levels ''spike-*-*.dat'' = [] then None
       else Some (map (\<lambda>n. (n, frames_of table_pd
                                  (glob dir_two_levels (''spike-'' @ str_int n @ ''-*.dat''))))
                   (procs_lst wrapper_1_2)))"
    by blast
  with files lv have a: "spike collected_two_levels =
       Some (map (\<lambda>n. (n, frames_of table_pd (glob dir_two_levels (''spike-'' @ str_int n @ ''-*.dat''))))
               [1, 2])"
    by simp
  from T pass tr have b: "levels_agree table_pd spike_keys (dict_values (spike collected_two_levels))"
    by blast
  from pass a b comb show ?thesis by blast
qed

text \<open>
  C1 as stated fails for the multimeter kind: when it alone is present, with the same
  rows at both levels, its frames are not compared and the comparator raises
  \<open>NotImplementedError\<close>; when it is present beside spike files that differ between the
  levels, the same error is raised and the spike frames are not compared either.
\<close>

theorem multi_kind_not_compared:
  "collect_results table_pd wrapper_1_2 dir_multi_only
     = Inr (wrapper_1_2\<lparr>spike := None,
              multi := Some [(1, [(multi_header, [[''1'', ''1.0'', ''-70.0'']])]),
                             (2, [(multi_header, [[''1'', ''1.0'', ''-70.0'']])])],
              other := None\<rparr>)
   \<and> assert_correct_results table_pd wrapper_1_2 dir_multi_only
     = Inl (NotImplementedError ''MULTI is not ready yet'')
   \<and> assert_correct_results table_pd wrapper_1_2 (dir_mismatch @ dir_multi_only)
     = Inl (NotImplementedError ''MULTI is not ready yet'')"
  by code_simp

text \<open>A spike sent by neuron 5 with one process and by neuron 6 with two is detected.\<close>

lemma assert_correct_results_detects:
  "assert_correct_results table_pd wrapper_1_2 dir_mismatch
     = Inl (AssertionError ''DataFrame are different'')"
  by code_simp

end
